theory Spec2Isabelle
  imports Complex_Main "HOL-Library.Multiset"
begin

section \<open>The save document\<close>

text \<open>
  The report scripts read one JSON document. The model keeps the shape the scripts rely
  on. A top-level section is optional and holds an optional \<open>database\<close> table; a table
  is the list of its items in the order \<open>dict.items()\<close> yields them. Keys are the decimal
  numerals of integer identifiers and are written as the integers themselves, so
  \<open>str(x)\<close> of an identifier is the identifier, and \<open>str(None)\<close> (the text \<open>None\<close>) is
  no key of any table. An entry of a table is a dict, or \<open>NonDict\<close>: a value that is not a
  dict and counts as true in a condition, as the text \<open>none\<close> that stands for a deleted
  object; the scripts tell them apart with \<open>isinstance\<close>. (A non-dict value that counts as
  false, such as \<open>null\<close>, is not modelled.) The
  fields of a dict are optional: \<open>None\<close> stands for an absent key. JSON numbers are read
  as exact rationals; the rounding of binary floating point is not modelled.
\<close>

datatype 'a entry = NonDict | Dict 'a

type_synonym 'a table = "(int \<times> 'a entry) list"

record 'a manager =
  database :: "'a table option"

record pact_targets =
  first :: "int option"
  second :: "int option"

record pact =
  action :: "string option"
  targets :: "pact_targets option"

record state =
  s_country :: "int option"

record building =
  b_state :: "int option"
  b_levels :: "rat option"
  b_cash_reserves :: "rat option"
  b_profit_after_reserves :: "rat option"

record identity =
  i_country :: "int option"
  i_building :: "int option"

record ownership =
  o_identity :: "identity option"
  o_building :: "int option"
  o_levels :: "rat option"

record budget =
  credit :: "rat option"

record country =
  c_definition :: "string option"
  c_budget :: "budget option"

record save_data =
  country_manager :: "country manager option"
  building_manager :: "building manager option"
  states :: "state manager option"
  building_ownership_manager :: "ownership manager option"
  pacts :: "pact manager option"

text \<open>The exceptions the modelled code can raise: a division by zero, \<open>.get\<close> called on
  an entry that is not a dict, and a recursion deeper than the interpreter allows.\<close>

datatype error = ZeroDivisionError | AttributeError | RecursionError

text \<open>\<open>save_data.get(name, {}).get('database', {})\<close>: an absent section, or a section
  without a database, reads as the empty table.\<close>

definition get_database :: "'a manager option \<Rightarrow> 'a table" where
  "get_database sec =
     (case sec of
        None \<Rightarrow> []
      | Some s \<Rightarrow> (case database s of None \<Rightarrow> [] | Some tbl \<Rightarrow> tbl))"

text \<open>\<open>table.get(str(x))\<close> for an optional identifier \<open>x\<close>.\<close>

definition table_get :: "'a table \<Rightarrow> int option \<Rightarrow> 'a entry option" where
  "table_get tbl key = (case key of None \<Rightarrow> None | Some k \<Rightarrow> map_of tbl k)"

text \<open>Python truthiness of an optional identifier: \<open>None\<close> and \<open>0\<close> are false.\<close>

definition truthy :: "int option \<Rightarrow> bool" where
  "truthy x = (case x of None \<Rightarrow> False | Some i \<Rightarrow> i \<noteq> 0)"

section \<open>Subject-relationship resolver\<close>

text \<open>
  \<open>get_subject_relationships\<close> of \<open>gdp_treemap_plotly.py\<close> (the same text stands in
  \<open>population_treemap_plotly.py\<close>, and in \<open>goods_treemap_powerbloc.py\<close> up to \<open>int()\<close>
  applied to the identifiers; \<open>power_bloc_report.py\<close> has the first pass alone).
  \<open>direct_subjects\<close> is a dict from overlord to the list of its subjects, kept as an
  association list in insertion order.
\<close>

type_synonym subject_graph = "(int \<times> int list) list"

definition subject_types :: "string list" where
  "subject_types =
     [''dominion'', ''puppet'', ''protectorate'', ''colony'', ''personal_union'',
      ''chartered_company'']"

text \<open>\<open>if overlord not in direct_subjects: direct_subjects[overlord] = []\<close> followed by
  \<open>direct_subjects[overlord].append(subject)\<close>.\<close>

fun dict_append :: "int \<Rightarrow> int \<Rightarrow> subject_graph \<Rightarrow> subject_graph" where
  "dict_append overlord subject [] = [(overlord, [subject])]"
| "dict_append overlord subject ((k, subs) # rest) =
     (if k = overlord then (k, subs @ [subject]) # rest
      else (k, subs) # dict_append overlord subject rest)"

text \<open>The body of the first loop, for one item of the pacts table.\<close>

definition first_pass :: "subject_graph \<Rightarrow> pact entry \<Rightarrow> subject_graph" where
  "first_pass direct_subjects e =
     (case e of
        NonDict \<Rightarrow> direct_subjects
      | Dict p \<Rightarrow>
          if (case action p of None \<Rightarrow> [] | Some a \<Rightarrow> a) \<in> set subject_types then
            (let tg = (case targets p of None \<Rightarrow> \<lparr>first = None, second = None\<rparr> | Some t \<Rightarrow> t);
                 overlord = first tg;
                 subject = second tg
             in if truthy overlord \<and> truthy subject then
                  (case (overlord, subject) of
                     (Some ov, Some sb) \<Rightarrow> dict_append ov sb direct_subjects
                   | _ \<Rightarrow> direct_subjects)
                else direct_subjects)
          else direct_subjects)"

definition direct_subjects_of :: "pact table \<Rightarrow> subject_graph" where
  "direct_subjects_of tbl = foldl first_pass [] (map snd tbl)"

text \<open>
  The nested recursive function \<open>get_all_subjects(country_id, visited)\<close>. The Python
  set \<open>visited\<close> is shared by all calls of one traversal, so the model threads it: each
  call returns its result list and the set as it left it. \<open>expand_subjects\<close> is the
  \<open>for subject in direct_subjects[country_id]\<close> loop, which runs in the frame of its call.

  Each call of \<open>get_all_subjects\<close> takes one interpreter frame, and the interpreter raises
  \<open>RecursionError\<close> on a call that would go beyond its recursion limit. The first
  argument is the number of frames the interpreter still allows: a call with none left
  raises, and the calls made by a call have one frame less. No script changes the limit,
  so at the outermost call this number is the default limit of 1000 less the frames in
  use by the callers.
\<close>

fun get_all_subjects ::
    "nat \<Rightarrow> subject_graph \<Rightarrow> int \<Rightarrow> int set \<Rightarrow> error + int list \<times> int set"
  and expand_subjects ::
    "nat \<Rightarrow> subject_graph \<Rightarrow> int list \<Rightarrow> int set \<Rightarrow> error + int list \<times> int set"
where
  "get_all_subjects 0 ds country_id visited = Inl RecursionError"
| "get_all_subjects (Suc deeper) ds country_id visited =
     (if country_id \<in> visited then Inr ([], visited)
      else (case map_of ds country_id of
              None \<Rightarrow> Inr ([], insert country_id visited)
            | Some subs \<Rightarrow> expand_subjects deeper ds subs (insert country_id visited)))"
| "expand_subjects deeper ds [] visited = Inr ([], visited)"
| "expand_subjects deeper ds (subject # rest) visited =
     (case get_all_subjects deeper ds subject visited of
        Inl err \<Rightarrow> Inl err
      | Inr (sub_result, visited1) \<Rightarrow>
          (case expand_subjects deeper ds rest visited1 of
             Inl err \<Rightarrow> Inl err
           | Inr (rest_result, visited2) \<Rightarrow>
               Inr (subject # sub_result @ rest_result, visited2)))"

text \<open>The third loop, \<open>for overlord in direct_subjects\<close>: one traversal, with a fresh
  visited set, per key; an exception of a traversal ends the loop.\<close>

fun third_pass ::
    "nat \<Rightarrow> subject_graph \<Rightarrow> (int \<times> int list) list \<Rightarrow> error + (int \<times> int list) list" where
  "third_pass frames ds [] = Inr []"
| "third_pass frames ds ((overlord, subs) # rest) =
     (case get_all_subjects frames ds overlord {} of
        Inl err \<Rightarrow> Inl err
      | Inr (result, visited) \<Rightarrow>
          (case third_pass frames ds rest of
             Inl err \<Rightarrow> Inl err
           | Inr all_subjects \<Rightarrow> Inr ((overlord, result) # all_subjects)))"

text \<open>\<open>get_subject_relationships(save_data)\<close>, run with \<open>frames\<close> frames left for the
  traversals.\<close>

definition get_subject_relationships ::
    "nat \<Rightarrow> save_data \<Rightarrow> error + (int \<times> int list) list" where
  "get_subject_relationships frames sd =
     (let direct_subjects = direct_subjects_of (get_database (pacts sd))
      in third_pass frames direct_subjects direct_subjects)"


subsection \<open>The resolver's vocabulary\<close>

text \<open>\<open>direct_subjects.get(u, [])\<close>, and the edges of the direct subject graph.\<close>

definition direct_of :: "subject_graph \<Rightarrow> int \<Rightarrow> int list" where
  "direct_of ds u = (case map_of ds u of None \<Rightarrow> [] | Some subs \<Rightarrow> subs)"

definition subject_edges :: "subject_graph \<Rightarrow> (int \<times> int) set" where
  "subject_edges ds = {(u, s). s \<in> set (direct_of ds u)}"

text \<open>
  The specification's reading of the pacts table. A recognized subject pact is a dict
  entry whose action is one of the six subject types and whose two targets are present
  and not zero; \<open>pact_link\<close> gives its overlord and subject. \<open>recognized_subjects tbl u\<close>
  lists, in table order and with repetitions, the subjects of the recognized pacts whose
  overlord is \<open>u\<close>; \<open>direct_subject\<close> is the direct subject relation and
  \<open>subject_relation\<close> its graph.
\<close>

definition pact_link :: "pact entry \<Rightarrow> (int \<times> int) option" where
  "pact_link e =
     (case e of
        NonDict \<Rightarrow> None
      | Dict p \<Rightarrow>
          if (case action p of None \<Rightarrow> [] | Some a \<Rightarrow> a) \<in> set subject_types then
            (case targets p of
               None \<Rightarrow> None
             | Some tg \<Rightarrow>
                 (case (first tg, second tg) of
                    (Some ov, Some sb) \<Rightarrow> if ov \<noteq> 0 \<and> sb \<noteq> 0 then Some (ov, sb) else None
                  | _ \<Rightarrow> None))
          else None)"

definition subject_under :: "int \<Rightarrow> pact entry \<Rightarrow> int list" where
  "subject_under u e =
     (case pact_link e of None \<Rightarrow> [] | Some (ov, sb) \<Rightarrow> if ov = u then [sb] else [])"

definition recognized_subjects :: "pact table \<Rightarrow> int \<Rightarrow> int list" where
  "recognized_subjects tbl u = concat (map (subject_under u) (map snd tbl))"

definition direct_subject :: "pact table \<Rightarrow> int \<Rightarrow> int \<Rightarrow> bool" where
  "direct_subject tbl ov sb = (sb \<in> set (recognized_subjects tbl ov))"

definition subject_relation :: "pact table \<Rightarrow> (int \<times> int) set" where
  "subject_relation tbl = {(ov, sb). direct_subject tbl ov sb}"

text \<open>
  What a traversal has established when it returns \<open>res\<close>, having been started on the
  countries \<open>roots\<close> with the visited set \<open>v\<close> and the subjects \<open>pre\<close> appended by its own
  loop: the visited set has grown and holds the roots; the newly visited countries are
  finitely many, reachable from the roots, and have all of their direct subjects visited;
  the result list holds \<open>pre\<close> and the direct-subject lists of the newly visited
  countries, repetitions counted.
\<close>

definition dfs_post ::
  "subject_graph \<Rightarrow> int set \<Rightarrow> int list \<Rightarrow> int set \<Rightarrow> int list \<times> int set \<Rightarrow> bool" where
  "dfs_post ds roots pre v res =
     (case res of
        (r, v') \<Rightarrow>
          v \<subseteq> v' \<and> roots \<subseteq> v' \<and> finite (v' - v)
          \<and> (\<forall>u \<in> v' - v. set (direct_of ds u) \<subseteq> v')
          \<and> mset r = mset pre + (\<Sum>u \<in> v' - v. mset (direct_of ds u))
          \<and> v' - v \<subseteq> (subject_edges ds)\<^sup>* `` roots)"

subsection \<open>Example pacts tables\<close>

definition subject_pact :: "string \<Rightarrow> int \<Rightarrow> int \<Rightarrow> pact entry" where
  "subject_pact a ov sb =
     Dict \<lparr>action = Some a, targets = Some \<lparr>first = Some ov, second = Some sb\<rparr>\<rparr>"

definition pacts_of :: "pact table \<Rightarrow> save_data" where
  "pacts_of tbl =
     \<lparr>country_manager = None, building_manager = None, states = None,
      building_ownership_manager = None, pacts = Some \<lparr>database = Some tbl\<rparr>\<rparr>"

definition chain_save :: save_data where
  "chain_save = pacts_of [(10, subject_pact ''puppet'' 1 2), (11, subject_pact ''colony'' 2 3)]"

definition cyclic_save :: save_data where
  "cyclic_save = pacts_of [(10, subject_pact ''puppet'' 1 2), (11, subject_pact ''puppet'' 2 1)]"

definition diamond_save :: save_data where
  "diamond_save =
     pacts_of [(10, subject_pact ''dominion'' 1 2), (11, subject_pact ''dominion'' 1 3),
               (12, subject_pact ''protectorate'' 2 4), (13, subject_pact ''protectorate'' 3 4)]"



section \<open>Ownership attribution\<close>

text \<open>
  The totals are nested \<open>defaultdict(float)\<close>s from owner country to target country to
  value; \<open>totals[owner][target] += value\<close> creates what is missing, starting from 0.
\<close>

type_synonym investments = "int \<rightharpoonup> (int \<rightharpoonup> rat)"

definition add_total :: "(int \<rightharpoonup> rat) \<Rightarrow> int \<Rightarrow> rat \<Rightarrow> (int \<rightharpoonup> rat)" where
  "add_total totals k v = totals(k \<mapsto> (case totals k of None \<Rightarrow> 0 | Some x \<Rightarrow> x) + v)"

definition add_investment :: "investments \<Rightarrow> int \<Rightarrow> int \<Rightarrow> rat \<Rightarrow> investments" where
  "add_investment fi owner target v =
     fi(owner \<mapsto> add_total (case fi owner of None \<Rightarrow> Map.empty | Some inner \<Rightarrow> inner) target v)"

text \<open>Python's \<open>/\<close> raises on a zero divisor.\<close>

definition truediv :: "rat \<Rightarrow> rat \<Rightarrow> error + rat" where
  "truediv a b = (if b = 0 then Inl ZeroDivisionError else Inr (a / b))"

text \<open>\<open>building_levels = building.get('levels', 1)\<close> and
  \<open>ownership_ratio = levels / building_levels if building_levels > 0 else 0\<close>.\<close>

definition ownership_ratio :: "rat \<Rightarrow> building \<Rightarrow> error + rat" where
  "ownership_ratio levels b =
     (let building_levels = (case b_levels b of None \<Rightarrow> 1 | Some n \<Rightarrow> n)
      in if building_levels > 0 then truediv levels building_levels else Inr 0)"

text \<open>The value estimate of \<open>true_gdp_ownership.py\<close>, \<open>effective_gdp_report.py\<close> and
  \<open>session_comparison.py\<close> (the same text in the three).\<close>

definition building_value :: "rat \<Rightarrow> building \<Rightarrow> error + rat" where
  "building_value levels b =
     (case ownership_ratio levels b of
        Inl err \<Rightarrow> Inl err
      | Inr ratio \<Rightarrow>
          (let cash_reserves = (case b_cash_reserves b of None \<Rightarrow> 0 | Some c \<Rightarrow> c);
               profit_after_reserves = (case b_profit_after_reserves b of None \<Rightarrow> 0 | Some p \<Rightarrow> p)
           in if cash_reserves > 0 then Inr (cash_reserves * ratio)
              else if profit_after_reserves > 0 then
                (let annual_profit = profit_after_reserves * 52 * ratio in Inr (annual_profit * 10))
              else Inr (levels * 50000)))"

text \<open>A state looked up by \<open>str(state_id)\<close>, then its \<open>country\<close> field; \<open>.get\<close> on an entry
  that is not a dict raises. A missing state and a missing country both read \<open>None\<close>: the
  callers skip on either.\<close>

definition state_country :: "state table \<Rightarrow> int option \<Rightarrow> error + int option" where
  "state_country sts state_id =
     (case table_get sts state_id of
        None \<Rightarrow> Inr None
      | Some NonDict \<Rightarrow> Inl AttributeError
      | Some (Dict st) \<Rightarrow> Inr (s_country st))"

text \<open>The owner's country: the identity's \<open>country\<close> when the key is there, else the
  country of the state of the identity's \<open>building\<close>.\<close>

definition owner_country_of :: "building table \<Rightarrow> state table \<Rightarrow> identity \<Rightarrow> error + int option" where
  "owner_country_of buildings sts ident =
     (if i_country ident \<noteq> None then Inr (i_country ident)
      else if i_building ident \<noteq> None then
        (case table_get buildings (i_building ident) of
           None \<Rightarrow> Inr None
         | Some NonDict \<Rightarrow> Inl AttributeError
         | Some (Dict owner_building) \<Rightarrow> state_country sts (b_state owner_building))
      else Inr None)"

definition identity_of :: "ownership \<Rightarrow> identity" where
  "identity_of ow =
     (case o_identity ow of None \<Rightarrow> \<lparr>i_country = None, i_building = None\<rparr> | Some i \<Rightarrow> i)"

definition levels_of :: "ownership \<Rightarrow> rat" where
  "levels_of ow = (case o_levels ow of None \<Rightarrow> 0 | Some l \<Rightarrow> l)"

text \<open>The host and the owner country an ownership record resolves to.\<close>

definition record_host :: "building table \<Rightarrow> state table \<Rightarrow> ownership \<Rightarrow> error + int option" where
  "record_host buildings sts ow =
     (case table_get buildings (o_building ow) of
        None \<Rightarrow> Inr None
      | Some NonDict \<Rightarrow> Inl AttributeError
      | Some (Dict b) \<Rightarrow> state_country sts (b_state b))"

definition record_owner :: "building table \<Rightarrow> state table \<Rightarrow> ownership \<Rightarrow> error + int option" where
  "record_owner buildings sts ow = owner_country_of buildings sts (identity_of ow)"

text \<open>
  The specification's value rule for a stake of \<open>levels\<close> levels in the building \<open>b\<close>:
  cash reserves times the ownership ratio when the cash reserves are positive; else the
  weekly profit times 52 times the ownership ratio times 10 when the profit is positive;
  else the levels times 50000. The ownership ratio is the levels divided by the
  building's total level count where that count is positive, and 0 otherwise; a building
  without a \<open>levels\<close> field counts 1 level.
\<close>

definition spec_value :: "rat \<Rightarrow> building \<Rightarrow> rat" where
  "spec_value levels b =
     (let cash_reserves = (case b_cash_reserves b of None \<Rightarrow> 0 | Some c \<Rightarrow> c);
          profit_after_reserves = (case b_profit_after_reserves b of None \<Rightarrow> 0 | Some p \<Rightarrow> p);
          building_total_levels = (case b_levels b of None \<Rightarrow> 1 | Some n \<Rightarrow> n);
          ratio = (if 0 < building_total_levels then levels / building_total_levels else 0)
      in if cash_reserves > 0 then cash_reserves * ratio
         else if profit_after_reserves > 0 then profit_after_reserves * 52 * ratio * 10
         else levels * 50000)"

subsection \<open>\<open>analyze_foreign_ownership_true_gdp\<close> (\<open>true_gdp_ownership.py\<close>)\<close>

text \<open>The body of the loop over the ownership table, up to the last statement: the
  edge (owner, target, value) whose value the last statement adds to
  \<open>foreign_investments\<close>, or \<open>None\<close> when the record is skipped.\<close>

definition true_gdp_edge ::
  "building table \<Rightarrow> state table \<Rightarrow> ownership entry \<Rightarrow> error + (int \<times> int \<times> rat) option" where
  "true_gdp_edge buildings sts e =
     (case e of
        NonDict \<Rightarrow> Inr None
      | Dict ow \<Rightarrow>
          if \<not> levels_of ow > 0 then Inr None
          else
            (case table_get buildings (o_building ow) of
               None \<Rightarrow> Inr None
             | Some NonDict \<Rightarrow> Inl AttributeError
             | Some (Dict b) \<Rightarrow>
                 (case state_country sts (b_state b) of
                    Inl err \<Rightarrow> Inl err
                  | Inr target_country \<Rightarrow>
                      if \<not> truthy target_country then Inr None
                      else
                        (case owner_country_of buildings sts (identity_of ow) of
                           Inl err \<Rightarrow> Inl err
                         | Inr owner_country \<Rightarrow>
                             (case building_value (levels_of ow) b of
                                Inl err \<Rightarrow> Inl err
                              | Inr v \<Rightarrow>
                                  (case (owner_country, target_country) of
                                     (Some oc, Some tc) \<Rightarrow>
                                       if oc \<noteq> 0 \<and> tc \<noteq> 0 \<and> oc \<noteq> tc then Inr (Some (oc, tc, v))
                                       else Inr None
                                   | _ \<Rightarrow> Inr None))))))"

fun true_gdp_loop ::
  "building table \<Rightarrow> state table \<Rightarrow> investments \<Rightarrow> ownership table \<Rightarrow> error + investments" where
  "true_gdp_loop buildings sts fi [] = Inr fi"
| "true_gdp_loop buildings sts fi ((ownership_id, e) # rest) =
     (case true_gdp_edge buildings sts e of
        Inl err \<Rightarrow> Inl err
      | Inr None \<Rightarrow> true_gdp_loop buildings sts fi rest
      | Inr (Some (oc, tc, v)) \<Rightarrow> true_gdp_loop buildings sts (add_investment fi oc tc v) rest)"

text \<open>\<open>calculate_true_gdp\<close>: the cash reserves of the buildings per country, then the
  GDP of each country with credit.\<close>

fun reserves_loop ::
  "state table \<Rightarrow> (int \<rightharpoonup> rat) \<Rightarrow> building table \<Rightarrow> error + (int \<rightharpoonup> rat)" where
  "reserves_loop sts acc [] = Inr acc"
| "reserves_loop sts acc ((building_id, e) # rest) =
     (case e of
        NonDict \<Rightarrow> reserves_loop sts acc rest
      | Dict b \<Rightarrow>
          (let cash_reserves = (case b_cash_reserves b of None \<Rightarrow> 0 | Some c \<Rightarrow> c)
           in if cash_reserves \<le> 0 then reserves_loop sts acc rest
              else
                (case state_country sts (b_state b) of
                   Inl err \<Rightarrow> Inl err
                 | Inr None \<Rightarrow> reserves_loop sts acc rest
                 | Inr (Some country_id) \<Rightarrow>
                     if country_id = 0 then reserves_loop sts acc rest
                     else reserves_loop sts (add_total acc country_id cash_reserves) rest)))"

fun gdp_loop :: "(int \<rightharpoonup> rat) \<Rightarrow> (int \<rightharpoonup> rat) \<Rightarrow> country table \<Rightarrow> (int \<rightharpoonup> rat)" where
  "gdp_loop reserves gdps [] = gdps"
| "gdp_loop reserves gdps ((country_id, e) # rest) =
     (case e of
        NonDict \<Rightarrow> gdp_loop reserves gdps rest
      | Dict c \<Rightarrow>
          (let credit = (case c_budget c of
                           None \<Rightarrow> 0
                         | Some bg \<Rightarrow> (case credit bg of None \<Rightarrow> 0 | Some x \<Rightarrow> x))
           in if credit \<le> 0 then gdp_loop reserves gdps rest
              else
                (let building_reserves = (case reserves country_id of None \<Rightarrow> 0 | Some r \<Rightarrow> r);
                     calculated_gdp = (credit - 100000 - building_reserves) / (1 / 2)
                 in if calculated_gdp > 0
                    then gdp_loop reserves (gdps(country_id \<mapsto> calculated_gdp)) rest
                    else gdp_loop reserves gdps rest)))"

definition calculate_true_gdp :: "save_data \<Rightarrow> error + (int \<rightharpoonup> rat)" where
  "calculate_true_gdp sd =
     (let countries = get_database (country_manager sd);
          buildings = get_database (building_manager sd);
          sts = get_database (states sd)
      in case reserves_loop sts Map.empty buildings of
           Inl err \<Rightarrow> Inl err
         | Inr reserves \<Rightarrow> Inr (gdp_loop reserves Map.empty countries))"

subsection \<open>The human-country filter file\<close>

text \<open>
  The file is read line by line; a line is a string, with its line end. \<open>str.strip()\<close>
  removes the white space at both ends; the white-space characters modelled are the
  ASCII ones (tab, line feed, vertical tab, form feed, carriage return, the four
  separators 28 to 31, and space). A file that does not exist is \<open>None\<close>.
\<close>

definition is_space :: "char \<Rightarrow> bool" where
  "is_space c =
     (c \<in> set [CHR 0x09, CHR 0x0A, CHR 0x0B, CHR 0x0C, CHR 0x0D,
               CHR 0x1C, CHR 0x1D, CHR 0x1E, CHR 0x1F, CHR 0x20])"

definition strip :: "string \<Rightarrow> string" where
  "strip s = rev (dropWhile is_space (rev (dropWhile is_space s)))"

definition startswith_hash :: "string \<Rightarrow> bool" where
  "startswith_hash s = (case s of [] \<Rightarrow> False | c # cs \<Rightarrow> c = CHR ''#'')"

text \<open>\<open>load_humans_list\<close> of \<open>gdp_report.py\<close>: a missing file gives the empty list (and
  a warning on standard output, not modelled).\<close>

fun humans_lines :: "string list \<Rightarrow> string list" where
  "humans_lines [] = []"
| "humans_lines (line # rest) =
     (let line = strip line
      in if line \<noteq> [] \<and> \<not> startswith_hash line then line # humans_lines rest
         else humans_lines rest)"

definition load_humans_list :: "string list option \<Rightarrow> string list" where
  "load_humans_list humans_file =
     (case humans_file of None \<Rightarrow> [] | Some ls \<Rightarrow> humans_lines ls)"

text \<open>The set comprehension \<open>{line.strip() for line in f if line.strip()}\<close> of
  \<open>foreign_ownership_report.py\<close>, \<open>true_gdp_ownership.py\<close> and a dozen other reports.\<close>

definition stripped_lines :: "string list \<Rightarrow> string set" where
  "stripped_lines ls = set (map strip (filter (\<lambda>line. strip line \<noteq> []) ls))"

text \<open>The loading at the head of \<open>generate_report\<close> in \<open>foreign_ownership_report.py\<close>.\<close>

definition report_human_countries :: "bool \<Rightarrow> string list option \<Rightarrow> string set" where
  "report_human_countries humans_only humans_file =
     (case humans_file of
        None \<Rightarrow> {}
      | Some ls \<Rightarrow> if humans_only then stripped_lines ls else {})"

text \<open>The specification's filter set: the stripped lines that are not blank and do not
  start with \<open>#\<close>.\<close>

definition spec_filter_set :: "string list \<Rightarrow> string set" where
  "spec_filter_set ls = {t. \<exists>line \<in> set ls. t = strip line \<and> t \<noteq> [] \<and> \<not> startswith_hash t}"

subsection \<open>The three ownership walks\<close>

text \<open>\<open>analyze_foreign_ownership_true_gdp\<close>; the second argument is the file
  \<open>humans.txt\<close>.\<close>

definition analyze_foreign_ownership_true_gdp ::
  "save_data \<Rightarrow> string list option
     \<Rightarrow> error + (investments \<times> (int \<rightharpoonup> rat) \<times> country table \<times> string set)" where
  "analyze_foreign_ownership_true_gdp sd humans_file =
     (let countries = get_database (country_manager sd);
          buildings = get_database (building_manager sd);
          sts = get_database (states sd);
          ownership_data = get_database (building_ownership_manager sd)
      in case calculate_true_gdp sd of
           Inl err \<Rightarrow> Inl err
         | Inr country_gdps \<Rightarrow>
             (let human_countries = (case humans_file of None \<Rightarrow> {} | Some ls \<Rightarrow> stripped_lines ls)
              in case true_gdp_loop buildings sts Map.empty ownership_data of
                   Inl err \<Rightarrow> Inl err
                 | Inr foreign_investments \<Rightarrow>
                     Inr (foreign_investments, country_gdps, countries, human_countries)))"

text \<open>\<open>calculate_foreign_ownership\<close> of \<open>effective_gdp_report.py\<close> (the same loop stands in
  \<open>calculate_effective_gdp\<close> of \<open>session_comparison.py\<close>). It skips a record without an
  owner before it estimates the value, and it keeps domestic stakes in the matrix.\<close>

definition effective_edge ::
  "building table \<Rightarrow> state table \<Rightarrow> ownership entry \<Rightarrow> error + (int \<times> int \<times> rat) option" where
  "effective_edge buildings sts e =
     (case e of
        NonDict \<Rightarrow> Inr None
      | Dict ow \<Rightarrow>
          if \<not> levels_of ow > 0 then Inr None
          else
            (case table_get buildings (o_building ow) of
               None \<Rightarrow> Inr None
             | Some NonDict \<Rightarrow> Inl AttributeError
             | Some (Dict b) \<Rightarrow>
                 (case state_country sts (b_state b) of
                    Inl err \<Rightarrow> Inl err
                  | Inr host_country_id \<Rightarrow>
                      if \<not> truthy host_country_id then Inr None
                      else
                        (case owner_country_of buildings sts (identity_of ow) of
                           Inl err \<Rightarrow> Inl err
                         | Inr owner_country_id \<Rightarrow>
                             if \<not> truthy owner_country_id then Inr None
                             else
                               (case building_value (levels_of ow) b of
                                  Inl err \<Rightarrow> Inl err
                                | Inr v \<Rightarrow>
                                    (case (owner_country_id, host_country_id) of
                                       (Some oc, Some hc) \<Rightarrow> Inr (Some (oc, hc, v))
                                     | _ \<Rightarrow> Inr None))))))"

fun effective_loop ::
  "building table \<Rightarrow> state table \<Rightarrow> investments \<Rightarrow> ownership table \<Rightarrow> error + investments" where
  "effective_loop buildings sts m [] = Inr m"
| "effective_loop buildings sts m ((ownership_id, e) # rest) =
     (case effective_edge buildings sts e of
        Inl err \<Rightarrow> Inl err
      | Inr None \<Rightarrow> effective_loop buildings sts m rest
      | Inr (Some (oc, hc, v)) \<Rightarrow> effective_loop buildings sts (add_investment m oc hc v) rest)"

definition effective_foreign_ownership :: "save_data \<Rightarrow> error + investments" where
  "effective_foreign_ownership sd =
     effective_loop (get_database (building_manager sd)) (get_database (states sd)) Map.empty
       (get_database (building_ownership_manager sd))"

text \<open>\<open>calculate_foreign_ownership\<close> of \<open>foreign_ownership_report.py\<close>: only direct
  country owners, another value estimate, and a second total of every stake per host.\<close>

definition report_value :: "rat \<Rightarrow> building \<Rightarrow> error + rat" where
  "report_value levels b =
     (case ownership_ratio levels b of
        Inl err \<Rightarrow> Inl err
      | Inr ratio \<Rightarrow>
          (let profit_after_reserves = (case b_profit_after_reserves b of None \<Rightarrow> 0 | Some p \<Rightarrow> p);
               cash_reserves = (case b_cash_reserves b of None \<Rightarrow> 0 | Some c \<Rightarrow> c)
           in if profit_after_reserves > 0 then
                (let weekly_dividends = profit_after_reserves * ratio;
                     annual_dividend_value = weekly_dividends * 52
                 in Inr (annual_dividend_value / (12 / 100)))
              else
                (let cash_value = (if cash_reserves > 0 then cash_reserves * ratio else 0);
                     construction_value = levels * 100000
                 in Inr (cash_value + construction_value))))"

definition report_step ::
  "building table \<Rightarrow> state table \<Rightarrow> investments \<times> (int \<rightharpoonup> rat) \<Rightarrow> ownership entry
     \<Rightarrow> error + investments \<times> (int \<rightharpoonup> rat)" where
  "report_step buildings sts acc e =
     (case e of
        NonDict \<Rightarrow> Inr acc
      | Dict ow \<Rightarrow>
          (let building_id = o_building ow;
               owner_country = (case o_identity ow of None \<Rightarrow> None | Some i \<Rightarrow> i_country i);
               levels = levels_of ow
           in if \<not> (truthy building_id \<and> truthy owner_country \<and> levels > 0) then Inr acc
              else
                (case table_get buildings building_id of
                   None \<Rightarrow> Inr acc
                 | Some NonDict \<Rightarrow> Inl AttributeError
                 | Some (Dict b) \<Rightarrow>
                     if \<not> truthy (b_state b) then Inr acc
                     else
                       (case state_country sts (b_state b) of
                          Inl err \<Rightarrow> Inl err
                        | Inr state_owner \<Rightarrow>
                            if \<not> truthy state_owner then Inr acc
                            else
                              (case report_value levels b of
                                 Inl err \<Rightarrow> Inl err
                               | Inr annual_value \<Rightarrow>
                                   (case (owner_country, state_owner) of
                                      (Some oc, Some so) \<Rightarrow>
                                        if oc = so then
                                          Inr (fst acc, add_total (snd acc) so annual_value)
                                        else
                                          Inr (add_investment (fst acc) oc so annual_value,
                                               add_total (snd acc) so annual_value)
                                    | _ \<Rightarrow> Inr acc))))))"

fun report_loop ::
  "building table \<Rightarrow> state table \<Rightarrow> investments \<times> (int \<rightharpoonup> rat) \<Rightarrow> ownership table
     \<Rightarrow> error + investments \<times> (int \<rightharpoonup> rat)" where
  "report_loop buildings sts acc [] = Inr acc"
| "report_loop buildings sts acc ((ownership_id, e) # rest) =
     (case report_step buildings sts acc e of
        Inl err \<Rightarrow> Inl err
      | Inr acc' \<Rightarrow> report_loop buildings sts acc' rest)"

definition calculate_foreign_ownership :: "save_data \<Rightarrow> error + investments \<times> (int \<rightharpoonup> rat)" where
  "calculate_foreign_ownership sd =
     report_loop (get_database (building_manager sd)) (get_database (states sd))
       (Map.empty, Map.empty) (get_database (building_ownership_manager sd))"

subsection \<open>Example documents\<close>

text \<open>The direct-ownership scenario of the specification: country 1 holds 4 of the 10
  levels of building 100 (cash reserves 1000), which stands in state 50 of country 2.\<close>

definition building_100 :: building where
  "building_100 =
     \<lparr>b_state = Some 50, b_levels = Some 10, b_cash_reserves = Some 1000,
      b_profit_after_reserves = None\<rparr>"

definition stake_of :: "int \<Rightarrow> ownership" where
  "stake_of owner =
     \<lparr>o_identity = Some \<lparr>i_country = Some owner, i_building = None\<rparr>,
      o_building = Some 100, o_levels = Some 4\<rparr>"

definition direct_save :: save_data where
  "direct_save =
     \<lparr>country_manager = None,
      building_manager = Some \<lparr>database = Some [(100, Dict building_100)]\<rparr>,
      states = Some \<lparr>database = Some [(50, Dict \<lparr>s_country = Some 2\<rparr>)]\<rparr>,
      building_ownership_manager = Some \<lparr>database = Some [(7, Dict (stake_of 1))]\<rparr>,
      pacts = None\<rparr>"

text \<open>The other two scenarios of the specification. Building 200, in state 60 of
  country 1, holds 2 of the 5 levels of building 300 (no cash reserves, weekly profit
  100), which stands in state 50 of country 2. Country 1 holds 3 levels of building 400
  (neither cash reserves nor profit), in state 50 as well.\<close>

definition company_buildings :: "building table" where
  "company_buildings =
     [(200, Dict \<lparr>b_state = Some 60, b_levels = Some 1, b_cash_reserves = None,
                  b_profit_after_reserves = None\<rparr>),
      (300, Dict \<lparr>b_state = Some 50, b_levels = Some 5, b_cash_reserves = Some 0,
                  b_profit_after_reserves = Some 100\<rparr>),
      (400, Dict \<lparr>b_state = Some 50, b_levels = Some 6, b_cash_reserves = Some 0,
                  b_profit_after_reserves = Some 0\<rparr>)]"

definition company_states :: "state table" where
  "company_states = [(50, Dict \<lparr>s_country = Some 2\<rparr>), (60, Dict \<lparr>s_country = Some 1\<rparr>)]"

definition company_stake :: ownership where
  "company_stake =
     \<lparr>o_identity = Some \<lparr>i_country = None, i_building = Some 200\<rparr>,
      o_building = Some 300, o_levels = Some 2\<rparr>"

definition fallback_stake :: ownership where
  "fallback_stake =
     \<lparr>o_identity = Some \<lparr>i_country = Some 1, i_building = None\<rparr>,
      o_building = Some 400, o_levels = Some 3\<rparr>"

text \<open>A building whose record has no \<open>levels\<close> field, and a state owned by the country
  with identifier 0.\<close>

definition building_without_levels :: building where
  "building_without_levels =
     \<lparr>b_state = Some 50, b_levels = None, b_cash_reserves = Some 1000,
      b_profit_after_reserves = None\<rparr>"

definition states_of_zero :: "state table" where
  "states_of_zero = [(50, Dict \<lparr>s_country = Some 0\<rparr>)]"

text \<open>A filter file with a comment line, and a document without state table whose
  ownership record refers to a building entry that is not a dict.\<close>

definition humans_txt :: "string list" where
  "humans_txt = [''# players'' @ [CHR 0x0A], ''GBR'' @ [CHR 0x0A]]"

definition stateless_save :: save_data where
  "stateless_save =
     \<lparr>country_manager = None,
      building_manager = Some \<lparr>database = Some [(100, NonDict)]\<rparr>,
      states = None,
      building_ownership_manager = Some \<lparr>database = Some [(7, Dict (stake_of 1))]\<rparr>,
      pacts = None\<rparr>"

text \<open>Every entry of a table is a dict.\<close>

definition all_dicts :: "'a table \<Rightarrow> bool" where
  "all_dicts tbl = (\<forall>e \<in> snd ` set tbl. e \<noteq> NonDict)"

text \<open>A section that is present with an empty table.\<close>

definition empty_table :: "'a manager option" where
  "empty_table = Some \<lparr>database = Some []\<rparr>"

section \<open>Properties of the subject-relationship resolver\<close>

subsection \<open>The first pass\<close>

lemma first_pass_link:
  "first_pass ds e = (case pact_link e of None \<Rightarrow> ds | Some (ov, sb) \<Rightarrow> dict_append ov sb ds)"
  by (simp add: first_pass_def pact_link_def truthy_def Let_def
      split: entry.splits option.splits)

lemma direct_of_dict_append:
  "direct_of (dict_append k s ds) u = (if u = k then direct_of ds u @ [s] else direct_of ds u)"
  by (induction ds) (auto simp: direct_of_def)

lemma direct_of_first_pass:
  "direct_of (first_pass ds e) u = direct_of ds u @ subject_under u e"
  by (cases "pact_link e")
     (auto simp: first_pass_link subject_under_def direct_of_dict_append)

lemma direct_of_foldl_first_pass:
  "direct_of (foldl first_pass ds es) u = direct_of ds u @ concat (map (subject_under u) es)"
proof (induction es arbitrary: ds)
  case Nil
  show ?case by simp
next
  case (Cons e es)
  have "direct_of (foldl first_pass ds (e # es)) u
        = direct_of (first_pass ds e) u @ concat (map (subject_under u) es)"
    using Cons.IH[of "first_pass ds e"] by simp
  then show ?case by (simp add: direct_of_first_pass)
qed

lemma direct_of_direct_subjects:
  "direct_of (direct_subjects_of tbl) u = recognized_subjects tbl u"
  unfolding direct_subjects_of_def recognized_subjects_def direct_of_foldl_first_pass
  by (simp add: direct_of_def)

lemma subject_edges_direct_subjects:
  "subject_edges (direct_subjects_of tbl) = subject_relation tbl"
  by (simp add: subject_edges_def subject_relation_def direct_subject_def
      direct_of_direct_subjects)





subsection \<open>The traversal\<close>


lemma dfs_inv:
  "get_all_subjects frames ds c v = Inr res \<Longrightarrow> dfs_post ds {c} [] v res"
  "expand_subjects frames ds l v = Inr res \<Longrightarrow> dfs_post ds (set l) l v res"
proof (induction frames ds c v and frames ds l v arbitrary: res and res
    rule: get_all_subjects_expand_subjects.induct)
  case (1 ds c v)
  then show ?case by simp
next
  case (2 d ds c v)
  show ?case
  proof (cases "c \<in> v")
    case True
    with 2(2) show ?thesis by (auto simp: dfs_post_def)
  next
    case notin: False
    show ?thesis
    proof (cases "map_of ds c")
      case None
      then have "direct_of ds c = []" by (simp add: direct_of_def)
      moreover have "insert c v - v = {c}" using notin by auto
      moreover have "v \<subseteq> insert c v" by blast
      moreover have "res = ([], insert c v)" using 2(2) notin None by simp
      ultimately show ?thesis by (simp add: dfs_post_def)
    next
      case (Some subs)
      obtain r v' where res: "res = (r, v')" by (cases res)
      have e: "expand_subjects d ds subs (insert c v) = Inr (r, v')"
        using 2(2) notin Some res by simp
      have dc: "direct_of ds c = subs" using Some by (simp add: direct_of_def)
      define N where "N = v' - insert c v"
      from "2.IH"[OF notin Some e]
      have ih: "insert c v \<subseteq> v'" "set subs \<subseteq> v'" "finite N"
        "\<forall>u \<in> N. set (direct_of ds u) \<subseteq> v'"
        "mset r = mset subs + (\<Sum>u \<in> N. mset (direct_of ds u))"
        "N \<subseteq> (subject_edges ds)\<^sup>* `` set subs"
        by (simp_all add: dfs_post_def N_def)
      have split: "v' - v = insert c N" using ih(1) notin unfolding N_def by blast
      have cN: "c \<notin> N" unfolding N_def by blast
      have fin: "finite (v' - v)" unfolding split using ih(3) by simp
      have closed: "\<forall>u \<in> v' - v. set (direct_of ds u) \<subseteq> v'"
        unfolding split using ih(2,4) dc by simp
      have "(\<Sum>u \<in> v' - v. mset (direct_of ds u))
            = mset subs + (\<Sum>u \<in> N. mset (direct_of ds u))"
        unfolding split using ih(3) cN dc by simp
      then have ms: "mset r = mset [] + (\<Sum>u \<in> v' - v. mset (direct_of ds u))"
        using ih(5) by simp
      have sub: "(subject_edges ds)\<^sup>* `` set subs \<subseteq> (subject_edges ds)\<^sup>* `` {c}"
      proof
        fix t assume "t \<in> (subject_edges ds)\<^sup>* `` set subs"
        then obtain s where s: "s \<in> set subs" "(s, t) \<in> (subject_edges ds)\<^sup>*" by blast
        from s(1) dc have "(c, s) \<in> subject_edges ds" by (simp add: subject_edges_def)
        then have "(c, t) \<in> (subject_edges ds)\<^sup>*" using s(2)
          by (rule converse_rtrancl_into_rtrancl)
        then show "t \<in> (subject_edges ds)\<^sup>* `` {c}" by simp
      qed
      have "c \<in> (subject_edges ds)\<^sup>* `` {c}" by simp
      with ih(6) sub have reach: "v' - v \<subseteq> (subject_edges ds)\<^sup>* `` {c}"
        unfolding split by blast
      have "v \<subseteq> v'" "{c} \<subseteq> v'" using ih(1) by auto
      with fin closed ms reach show ?thesis unfolding res
        by (simp add: dfs_post_def)
    qed
  qed
next
  case (3 d ds v)
  then show ?case by (auto simp: dfs_post_def)
next
  case (4 d ds s rest v)
  from 4(3) obtain r1 v1 where g: "get_all_subjects d ds s v = Inr (r1, v1)"
    by (auto split: sum.splits)
  with 4(3) obtain r2 v2 where e: "expand_subjects d ds rest v1 = Inr (r2, v2)"
    by (auto split: sum.splits)
  from 4(3) g e have res: "res = (s # r1 @ r2, v2)" by simp
  from "4.IH"(1)[OF g]
  have a: "v \<subseteq> v1" "s \<in> v1" "finite (v1 - v)"
    "\<forall>u \<in> v1 - v. set (direct_of ds u) \<subseteq> v1"
    "mset r1 = (\<Sum>u \<in> v1 - v. mset (direct_of ds u))"
    "v1 - v \<subseteq> (subject_edges ds)\<^sup>* `` {s}"
    by (simp_all add: dfs_post_def)
  from "4.IH"(2)[OF g refl e]
  have b: "v1 \<subseteq> v2" "set rest \<subseteq> v2" "finite (v2 - v1)"
    "\<forall>u \<in> v2 - v1. set (direct_of ds u) \<subseteq> v2"
    "mset r2 = mset rest + (\<Sum>u \<in> v2 - v1. mset (direct_of ds u))"
    "v2 - v1 \<subseteq> (subject_edges ds)\<^sup>* `` set rest"
    by (simp_all add: dfs_post_def)
  have split: "v2 - v = (v1 - v) \<union> (v2 - v1)" "(v1 - v) \<inter> (v2 - v1) = {}"
    using a(1) b(1) by blast+
  have fin: "finite (v2 - v)" unfolding split(1) using a(3) b(3) by simp
  have closed: "\<forall>u \<in> v2 - v. set (direct_of ds u) \<subseteq> v2"
    unfolding split(1) using a(4) b(1,4) by blast
  have "(\<Sum>u \<in> v2 - v. mset (direct_of ds u))
        = (\<Sum>u \<in> v1 - v. mset (direct_of ds u)) + (\<Sum>u \<in> v2 - v1. mset (direct_of ds u))"
    unfolding split(1) using a(3) b(3) split(2) by (rule sum.union_disjoint)
  then have ms: "mset (s # r1 @ r2) = mset (s # rest) + (\<Sum>u \<in> v2 - v. mset (direct_of ds u))"
    using a(5) b(5) by simp
  have reach: "v2 - v \<subseteq> (subject_edges ds)\<^sup>* `` set (s # rest)"
    unfolding split(1) using a(6) b(6) by (simp add: Image_def) blast
  have "v \<subseteq> v2" "set (s # rest) \<subseteq> v2" using a(1,2) b(1,2) by auto
  with fin closed ms reach show ?case unfolding res by (simp add: dfs_post_def)
qed

text \<open>Enough frames: more than there are keys of the dict still unvisited.\<close>

lemma enough_frames:
  "card (fst ` set ds - v) < frames \<Longrightarrow> \<exists>res. get_all_subjects frames ds c v = Inr res"
  "card (fst ` set ds - v) < frames \<Longrightarrow> \<exists>res. expand_subjects frames ds l v = Inr res"
proof (induction frames ds c v and frames ds l v
    rule: get_all_subjects_expand_subjects.induct)
  case (1 ds c v)
  then show ?case by simp
next
  case (2 d ds c v)
  show ?case
  proof (cases "c \<in> v")
    case True
    then show ?thesis by simp
  next
    case notin: False
    show ?thesis
    proof (cases "map_of ds c")
      case None
      with notin show ?thesis by simp
    next
      case (Some subs)
      then have "c \<in> fst ` set ds" by (auto dest: map_of_SomeD intro: rev_image_eqI)
      with notin have "card (fst ` set ds - insert c v) < card (fst ` set ds - v)"
        by (intro psubset_card_mono) auto
      with 2(2) have "card (fst ` set ds - insert c v) < d" by simp
      from "2.IH"[OF notin Some this] notin Some show ?thesis by simp
    qed
  qed
next
  case (3 d ds v)
  show ?case by simp
next
  case (4 d ds s rest v)
  from "4.IH"(1)[OF 4(3)] obtain r1 v1 where g: "get_all_subjects d ds s v = Inr (r1, v1)"
    by auto
  from dfs_inv(1)[OF g] have "v \<subseteq> v1" by (simp add: dfs_post_def)
  then have "card (fst ` set ds - v1) \<le> card (fst ` set ds - v)"
    by (intro card_mono) auto
  with 4(3) have "card (fst ` set ds - v1) < d" by simp
  from "4.IH"(2)[OF g refl this] obtain res where "expand_subjects d ds rest v1 = Inr res"
    by auto
  with g show ?case by (cases res) simp
qed

lemma only_recursion_error:
  "get_all_subjects frames ds c v = Inl err \<Longrightarrow> err = RecursionError"
  "expand_subjects frames ds l v = Inl err \<Longrightarrow> err = RecursionError"
proof (induction frames ds c v and frames ds l v
    rule: get_all_subjects_expand_subjects.induct)
  case (4 d ds s rest v)
  then show ?case by (auto split: sum.splits)
qed (auto split: if_splits option.splits)

lemma closed_contains_reachable:
  assumes "c \<in> V" and "\<forall>u \<in> V. set (direct_of ds u) \<subseteq> V"
    and "(c, t) \<in> (subject_edges ds)\<^sup>*"
  shows "t \<in> V"
  using assms(3)
proof (induction rule: rtrancl_induct)
  case base
  show ?case by (rule assms(1))
next
  case (step y z)
  from step(2) have "z \<in> set (direct_of ds y)" by (simp add: subject_edges_def)
  with step(3) assms(2) show ?case by blast
qed

lemma visited_is_reachable:
  assumes "get_all_subjects frames ds c {} = Inr (r, v')"
  shows "v' = (subject_edges ds)\<^sup>* `` {c}"
proof -
  from dfs_inv(1)[OF assms]
  have inv: "c \<in> v'" "\<forall>u \<in> v'. set (direct_of ds u) \<subseteq> v'"
    "v' \<subseteq> (subject_edges ds)\<^sup>* `` {c}"
    by (simp_all add: dfs_post_def)
  have "(subject_edges ds)\<^sup>* `` {c} \<subseteq> v'"
    using closed_contains_reachable[OF inv(1,2)] by blast
  with inv(3) show ?thesis by simp
qed

lemma finite_reachable: "finite ((subject_edges ds)\<^sup>* `` {c})"
proof -
  obtain r v' where g: "get_all_subjects (Suc (card (fst ` set ds))) ds c {} = Inr (r, v')"
    using enough_frames(1)[of ds "{}" "Suc (card (fst ` set ds))" c] by auto
  from dfs_inv(1)[OF g] have "finite v'" by (simp add: dfs_post_def)
  then show ?thesis using visited_is_reachable[OF g] by simp
qed

lemma mset_get_all_subjects:
  assumes "get_all_subjects frames ds c {} = Inr (r, v')"
  shows "mset r = (\<Sum>u \<in> (subject_edges ds)\<^sup>* `` {c}. mset (direct_of ds u))"
proof -
  from dfs_inv(1)[OF assms]
  have "mset r = (\<Sum>u \<in> v'. mset (direct_of ds u))" by (simp add: dfs_post_def)
  then show ?thesis using visited_is_reachable[OF assms] by simp
qed

lemma set_get_all_subjects:
  assumes "get_all_subjects frames ds c {} = Inr (r, v')"
  shows "set r = (subject_edges ds)\<^sup>+ `` {c}"
proof -
  have "set r = set_mset (mset r)" by simp
  also have "\<dots> = (\<Union>u \<in> (subject_edges ds)\<^sup>* `` {c}. set (direct_of ds u))"
    unfolding mset_get_all_subjects[OF assms] using finite_reachable[of ds c]
    by (simp add: set_mset_sum)
  also have "\<dots> = (subject_edges ds)\<^sup>+ `` {c}"
  proof (intro set_eqI iffI)
    fix t assume "t \<in> (\<Union>u \<in> (subject_edges ds)\<^sup>* `` {c}. set (direct_of ds u))"
    then obtain u where "(c, u) \<in> (subject_edges ds)\<^sup>*" "t \<in> set (direct_of ds u)"
      by blast
    then have "(c, u) \<in> (subject_edges ds)\<^sup>*" "(u, t) \<in> subject_edges ds"
      by (simp_all add: subject_edges_def)
    then have "(c, t) \<in> (subject_edges ds)\<^sup>+" by (rule rtrancl_into_trancl1)
    then show "t \<in> (subject_edges ds)\<^sup>+ `` {c}" by simp
  next
    fix t assume "t \<in> (subject_edges ds)\<^sup>+ `` {c}"
    then have "(c, t) \<in> (subject_edges ds)\<^sup>+" by simp
    then obtain u where u: "(c, u) \<in> (subject_edges ds)\<^sup>*" "(u, t) \<in> subject_edges ds"
      by (blast dest: tranclD2)
    from u(2) have "t \<in> set (direct_of ds u)" by (simp add: subject_edges_def)
    with u(1) show "t \<in> (\<Union>u \<in> (subject_edges ds)\<^sup>* `` {c}. set (direct_of ds u))"
      by blast
  qed
  finally show ?thesis .
qed

subsection \<open>The third loop\<close>

lemma third_pass_lookup:
  assumes "third_pass frames ds xs = Inr m"
  shows "map_of m ov = Some l
           \<longleftrightarrow> map_of xs ov \<noteq> None \<and> (\<exists>v'. get_all_subjects frames ds ov {} = Inr (l, v'))"
  using assms
proof (induction xs arbitrary: m)
  case Nil
  then show ?case by simp
next
  case (Cons x xs)
  obtain k subs where x: "x = (k, subs)" by (cases x)
  from Cons.prems obtain r v' m' where g: "get_all_subjects frames ds k {} = Inr (r, v')"
    and t: "third_pass frames ds xs = Inr m'" and m: "m = (k, r) # m'"
    unfolding x by (auto split: sum.splits)
  show ?case
  proof (cases "ov = k")
    case True
    with g m x show ?thesis by auto
  next
    case False
    with Cons.IH[OF t] m x show ?thesis by simp
  qed
qed


lemma third_pass_raises:
  assumes "k \<in> fst ` set xs" and "get_all_subjects frames ds k {} = Inl err"
  shows "third_pass frames ds xs = Inl RecursionError"
  using assms(1)
proof (induction xs)
  case Nil
  then show ?case by simp
next
  case (Cons x xs)
  obtain k' subs where x: "x = (k', subs)" by (cases x)
  show ?case
  proof (cases "get_all_subjects frames ds k' {}")
    case (Inl e)
    with only_recursion_error(1)[OF Inl] show ?thesis unfolding x by simp
  next
    case (Inr res)
    with assms(2) have "k' \<noteq> k" by auto
    with Cons.prems x have "k \<in> fst ` set xs" by auto
    from Cons.IH[OF this] Inr show ?thesis unfolding x by (cases res) simp
  qed
qed

text \<open>What the resolver returns for an overlord, where it returns.\<close>

lemma resolver_lookup_Some:
  assumes "get_subject_relationships frames sd = Inr m" and "map_of m ov = Some l"
  shows "\<exists>v'. get_all_subjects frames (direct_subjects_of (get_database (pacts sd))) ov {}
                = Inr (l, v')"
  using assms third_pass_lookup[of frames _ _ m ov l]
  by (auto simp: get_subject_relationships_def Let_def)

lemma resolver_lookup_direct:
  assumes "get_subject_relationships frames sd = Inr m"
    and "direct_subject (get_database (pacts sd)) ov sb"
  shows "\<exists>l v'. map_of m ov = Some l
           \<and> get_all_subjects frames (direct_subjects_of (get_database (pacts sd))) ov {}
               = Inr (l, v')"
proof -
  let ?ds = "direct_subjects_of (get_database (pacts sd))"
  from assms(2) have "direct_of ?ds ov \<noteq> []"
    by (auto simp: direct_subject_def direct_of_direct_subjects)
  then have key: "map_of ?ds ov \<noteq> None"
    by (auto simp: direct_of_def split: option.splits)
  then have "ov \<in> fst ` set ?ds" by (metis domIff dom_map_of_conv_image_fst)
  from assms(1) have t: "third_pass frames ?ds ?ds = Inr m"
    by (simp add: get_subject_relationships_def Let_def)
  have "\<exists>res. get_all_subjects frames ?ds ov {} = Inr res"
  proof (cases "get_all_subjects frames ?ds ov {}")
    case (Inl e)
    from third_pass_raises[OF \<open>ov \<in> fst ` set ?ds\<close> Inl] t show ?thesis by simp
  next
    case (Inr res)
    then show ?thesis by blast
  qed
  then obtain l v' where "get_all_subjects frames ?ds ov {} = Inr (l, v')" by force
  with third_pass_lookup[OF t, of ov l] key show ?thesis by blast
qed


subsection \<open>A chain deeper than the frames left\<close>





lemma frames_numeral:
  "get_all_subjects (numeral k) ds c v =
     (if c \<in> v then Inr ([], v)
      else (case map_of ds c of
              None \<Rightarrow> Inr ([], insert c v)
            | Some subs \<Rightarrow> expand_subjects (pred_numeral k) ds subs (insert c v)))"
  unfolding numeral_eq_Suc by (rule get_all_subjects.simps)

lemmas resolver_eval =
  get_subject_relationships_def direct_subjects_of_def get_database_def
  first_pass_def truthy_def subject_types_def frames_numeral Let_def

lemmas relation_eval =
  subject_relation_def direct_subject_def recognized_subjects_def subject_under_def
  pact_link_def get_database_def subject_types_def

subsection \<open>Claims about the resolver\<close>

lemma chain_save_resolved:
  "get_subject_relationships 1000 chain_save = Inr [(1, [2, 3]), (2, [3])]"
  by (simp add: chain_save_def pacts_of_def subject_pact_def resolver_eval)

text \<open>
  C3 (transitivity). Let \<open>S\<close> be a direct subject of \<open>O\<close> by a recognized subject pact, and
  \<open>T\<close> a direct or indirect subject of \<open>S\<close>. Then in every run in which the resolver
  returns its map, whatever the recursion limit, the map has a list for \<open>O\<close> and \<open>T\<close> is
  in it. This holds for every pacts table, cyclic ones included.
\<close>

theorem transitive_subjects_listed:
  assumes "get_subject_relationships frames sd = Inr all_subjects"
    and "direct_subject (get_database (pacts sd)) ov s"
    and "(s, t) \<in> (subject_relation (get_database (pacts sd)))\<^sup>+"
  shows "\<exists>l. map_of all_subjects ov = Some l \<and> t \<in> set l"
proof -
  let ?tbl = "get_database (pacts sd)"
  let ?ds = "direct_subjects_of ?tbl"
  from assms(2) have "(ov, s) \<in> subject_relation ?tbl" by (simp add: subject_relation_def)
  from this assms(3) have reach: "(ov, t) \<in> (subject_relation ?tbl)\<^sup>+"
    by (rule trancl_into_trancl2)
  from resolver_lookup_direct[OF assms(1,2)] obtain l v'
    where l: "map_of all_subjects ov = Some l"
      and g: "get_all_subjects frames ?ds ov {} = Inr (l, v')" by blast
  from reach have "t \<in> set l"
    by (simp add: set_get_all_subjects[OF g] subject_edges_direct_subjects)
  with l show ?thesis by simp
qed

theorem transitive_subjects_listed_witness:
  "get_subject_relationships 1000 chain_save = Inr [(1, [2, 3]), (2, [3])]
   \<and> direct_subject (get_database (pacts chain_save)) 1 2
   \<and> (2, 3) \<in> (subject_relation (get_database (pacts chain_save)))\<^sup>+
   \<and> (\<exists>l. map_of [(1, [2, 3]), (2, [3 :: int])] (1 :: int) = Some l \<and> 3 \<in> set l)"
proof -
  have h1: "direct_subject (get_database (pacts chain_save)) 1 2"
    by (simp add: chain_save_def pacts_of_def subject_pact_def relation_eval)
  have "(2, 3) \<in> subject_relation (get_database (pacts chain_save))"
    by (simp add: chain_save_def pacts_of_def subject_pact_def relation_eval)
  then have h2: "(2, 3) \<in> (subject_relation (get_database (pacts chain_save)))\<^sup>+"
    by (rule r_into_trancl)
  from chain_save_resolved h1 h2 transitive_subjects_listed[OF chain_save_resolved h1 h2]
  show ?thesis by blast
qed

text \<open>
  C2 (no self-subjection), as stated, fails: with the puppet pacts 1 \<rightarrow> 2 and 2 \<rightarrow> 1 the
  traversal for country 1 returns the list [2, 1], so country 1 is listed among its own
  subjects. The visited set stops the recursion; it does not keep the overlord out of
  the result, since each subject is appended before the recursive call tests it.
\<close>

theorem self_subjection_counterexample:
  "get_subject_relationships 1000 cyclic_save = Inr [(1, [2, 1]), (2, [1, 2])]
   \<and> map_of [(1, [2, 1]), (2, [1, 2 :: int])] (1 :: int) = Some [2, 1]
   \<and> (1::int) \<in> set [2, 1]"
  by (simp add: cyclic_save_def pacts_of_def subject_pact_def resolver_eval)

text \<open>
  C2 as amended: an overlord \<open>O\<close> of the output map is in its own list exactly when the
  recognized pacts hold a cycle through \<open>O\<close>, a chain of direct subject pacts from \<open>O\<close>
  back to \<open>O\<close>. On pact data without such a cycle \<open>O\<close> is never its own subject.
\<close>

theorem self_subjection_iff_cycle:
  assumes "get_subject_relationships frames sd = Inr all_subjects"
    and "map_of all_subjects ov = Some l"
  shows "ov \<in> set l \<longleftrightarrow> (ov, ov) \<in> (subject_relation (get_database (pacts sd)))\<^sup>+"
proof -
  from resolver_lookup_Some[OF assms] obtain v'
    where "get_all_subjects frames (direct_subjects_of (get_database (pacts sd))) ov {}
             = Inr (l, v')" by blast
  from set_get_all_subjects[OF this] show ?thesis
    by (simp add: subject_edges_direct_subjects)
qed

theorem self_subjection_iff_cycle_witness:
  "get_subject_relationships 1000 chain_save = Inr [(1, [2, 3]), (2, [3])]
   \<and> map_of [(1, [2, 3]), (2, [3 :: int])] (1 :: int) = Some [2, 3]
   \<and> ((1::int) \<in> set [2, 3]
        \<longleftrightarrow> (1, 1) \<in> (subject_relation (get_database (pacts chain_save)))\<^sup>+)"
proof -
  have h: "map_of [(1, [2, 3]), (2, [3 :: int])] (1 :: int) = Some [2, 3]" by simp
  from chain_save_resolved h self_subjection_iff_cycle[OF chain_save_resolved h]
  show ?thesis by blast
qed




text \<open>
  C7 (deduplication), as stated, fails: with pacts 1 \<rightarrow> 2, 1 \<rightarrow> 3, 2 \<rightarrow> 4 and 3 \<rightarrow> 4,
  country 4 is reached through two chains and is listed twice for overlord 1.
\<close>

theorem deduplication_counterexample:
  "get_subject_relationships 1000 diamond_save
     = Inr [(1, [2, 4, 3, 4]), (2, [4]), (3, [4])]
   \<and> map_of [(1, [2, 4, 3, 4]), (2, [4]), (3, [4 :: int])] (1 :: int) = Some [2, 4, 3, 4]
   \<and> \<not> distinct [2, 4, 3, 4 :: int]"
  by (simp add: diamond_save_def pacts_of_def subject_pact_def resolver_eval)

text \<open>
  C7 as amended: the list is not deduplicated. Each country is expanded at most once in
  a traversal, and a country \<open>T\<close> appears in the list of overlord \<open>O\<close> once for every
  recognized pact that names \<open>T\<close> as the subject of \<open>O\<close> or of a country reachable from
  \<open>O\<close>: exactly once when there is one such pact, several times when there are several.
\<close>

theorem subject_multiplicity:
  assumes "get_subject_relationships frames sd = Inr all_subjects"
    and "map_of all_subjects ov = Some l"
  shows "count_list l t
           = (\<Sum>u \<in> (subject_relation (get_database (pacts sd)))\<^sup>* `` {ov}.
                count_list (recognized_subjects (get_database (pacts sd)) u) t)"
proof -
  let ?tbl = "get_database (pacts sd)"
  let ?ds = "direct_subjects_of ?tbl"
  from resolver_lookup_Some[OF assms] obtain v'
    where g: "get_all_subjects frames ?ds ov {} = Inr (l, v')" by blast
  have "count_list l t = count (mset l) t" by (simp add: count_mset)
  also have "\<dots> = (\<Sum>u \<in> (subject_edges ?ds)\<^sup>* `` {ov}. count (mset (direct_of ?ds u)) t)"
    unfolding mset_get_all_subjects[OF g] by (simp add: count_sum)
  also have "\<dots> = (\<Sum>u \<in> (subject_relation ?tbl)\<^sup>* `` {ov}. count_list (recognized_subjects ?tbl u) t)"
    by (simp add: subject_edges_direct_subjects direct_of_direct_subjects count_mset)
  finally show ?thesis .
qed

theorem subject_multiplicity_witness:
  "get_subject_relationships 1000 diamond_save
     = Inr [(1, [2, 4, 3, 4]), (2, [4]), (3, [4])]
   \<and> map_of [(1, [2, 4, 3, 4]), (2, [4]), (3, [4 :: int])] (1 :: int) = Some [2, 4, 3, 4]
   \<and> count_list [2, 4, 3, 4 :: int] 4
       = (\<Sum>u \<in> (subject_relation (get_database (pacts diamond_save)))\<^sup>* `` {1}.
            count_list (recognized_subjects (get_database (pacts diamond_save)) u) 4)"
proof -
  have e: "get_subject_relationships 1000 diamond_save
     = Inr [(1, [2, 4, 3, 4]), (2, [4]), (3, [4])]"
    by (simp add: diamond_save_def pacts_of_def subject_pact_def resolver_eval)
  have h: "map_of [(1, [2, 4, 3, 4]), (2, [4]), (3, [4 :: int])] (1 :: int) = Some [2, 4, 3, 4]"
    by simp
  from e h subject_multiplicity[OF e h, of 4] show ?thesis by blast
qed

section \<open>Properties of the ownership attribution\<close>

lemmas walk_eval =
  true_gdp_edge_def effective_edge_def report_step_def record_host_def record_owner_def
  owner_country_of_def state_country_def table_get_def identity_of_def levels_of_def
  building_value_def report_value_def ownership_ratio_def truediv_def truthy_def
  get_database_def add_investment_def add_total_def Let_def

lemmas example_eval = direct_save_def building_100_def stake_of_def

lemma ownership_ratio_value:
  "ownership_ratio levels b
     = Inr (case b_levels b of None \<Rightarrow> levels | Some n \<Rightarrow> if 0 < n then levels / n else 0)"
  by (simp add: ownership_ratio_def truediv_def Let_def split: option.splits)

lemma building_value_value:
  "building_value levels b
     = Inr (let cash = (case b_cash_reserves b of None \<Rightarrow> 0 | Some c \<Rightarrow> c);
                profit = (case b_profit_after_reserves b of None \<Rightarrow> 0 | Some p \<Rightarrow> p);
                total = (case b_levels b of None \<Rightarrow> 1 | Some n \<Rightarrow> n);
                ratio = (if 0 < total then levels / total else 0)
            in if cash > 0 then cash * ratio
               else if profit > 0 then profit * 52 * ratio * 10
               else levels * 50000)"
  by (simp add: building_value_def ownership_ratio_value Let_def split: option.splits)

lemma report_value_no_error: "report_value levels b \<noteq> Inl err"
  by (simp add: report_value_def ownership_ratio_value Let_def)

text \<open>What an edge of either walk tells about its record.\<close>

lemma true_gdp_edge_SomeD:
  assumes "true_gdp_edge buildings sts (Dict ow) = Inr (Some (oc, tc, v))"
  shows "\<exists>b. table_get buildings (o_building ow) = Some (Dict b)
            \<and> building_value (levels_of ow) b = Inr v
            \<and> record_host buildings sts ow = Inr (Some tc)
            \<and> record_owner buildings sts ow = Inr (Some oc)
            \<and> oc \<noteq> 0 \<and> tc \<noteq> 0 \<and> oc \<noteq> tc \<and> 0 < levels_of ow"
  using assms
  by (auto simp: true_gdp_edge_def record_host_def record_owner_def truthy_def
      split: option.splits entry.splits sum.splits if_splits)

lemma effective_edge_SomeD:
  assumes "effective_edge buildings sts (Dict ow) = Inr (Some (oc, hc, v))"
  shows "\<exists>b. table_get buildings (o_building ow) = Some (Dict b)
            \<and> building_value (levels_of ow) b = Inr v
            \<and> record_host buildings sts ow = Inr (Some hc)
            \<and> record_owner buildings sts ow = Inr (Some oc)
            \<and> oc \<noteq> 0 \<and> hc \<noteq> 0 \<and> 0 < levels_of ow"
  using assms
  by (auto simp: effective_edge_def record_host_def record_owner_def truthy_def
      split: option.splits entry.splits sum.splits if_splits)

lemma direct_save_edge:
  "true_gdp_edge (get_database (building_manager direct_save)) (get_database (states direct_save))
     (Dict (stake_of 1)) = Inr (Some (1, 2, 400))"
  by (simp add: example_eval walk_eval)

lemma direct_save_building:
  "table_get (get_database (building_manager direct_save)) (o_building (stake_of 1))
     = Some (Dict building_100)"
  by (simp add: example_eval walk_eval)

subsection \<open>Claims about the ownership attribution\<close>

text \<open>
  C1 (value rule). Whenever the walk of \<open>true_gdp_ownership.py\<close> or the walk of
  \<open>effective_gdp_report.py\<close> and \<open>session_comparison.py\<close> turns an ownership record into
  an edge, the edge's value is the specification's three-branch value \<open>spec_value\<close> of the
  record's levels and the target building. And the walks do turn records into edges:
  a record with positive levels whose host and owner resolve to countries other than 0
  becomes an edge of that value in the walk of \<open>effective_gdp_report.py\<close>, and in the walk
  of \<open>true_gdp_ownership.py\<close> when owner and host differ.
\<close>

theorem edge_value_rule:
  assumes "table_get buildings (o_building ow) = Some (Dict b)"
  shows "(true_gdp_edge buildings sts (Dict ow) = Inr (Some (oc, tc, v))
            \<or> effective_edge buildings sts (Dict ow) = Inr (Some (oc, tc, v))
          \<longrightarrow> v = spec_value (levels_of ow) b)
         \<and> (0 < levels_of ow \<and> record_host buildings sts ow = Inr (Some tc)
              \<and> record_owner buildings sts ow = Inr (Some oc) \<and> oc \<noteq> 0 \<and> tc \<noteq> 0
            \<longrightarrow> effective_edge buildings sts (Dict ow)
                  = Inr (Some (oc, tc, spec_value (levels_of ow) b))
                \<and> (oc \<noteq> tc \<longrightarrow> true_gdp_edge buildings sts (Dict ow)
                                  = Inr (Some (oc, tc, spec_value (levels_of ow) b))))"
proof -
  have bv: "building_value (levels_of ow) b = Inr (spec_value (levels_of ow) b)"
    by (simp add: building_value_value spec_value_def Let_def)
  have "v = spec_value (levels_of ow) b"
    if "true_gdp_edge buildings sts (Dict ow) = Inr (Some (oc, tc, v))
        \<or> effective_edge buildings sts (Dict ow) = Inr (Some (oc, tc, v))"
  proof -
    from that obtain b' where "table_get buildings (o_building ow) = Some (Dict b')"
      and "building_value (levels_of ow) b' = Inr v"
      using true_gdp_edge_SomeD effective_edge_SomeD by blast
    with assms bv show ?thesis by simp
  qed
  moreover have "effective_edge buildings sts (Dict ow)
                  = Inr (Some (oc, tc, spec_value (levels_of ow) b))
                \<and> (oc \<noteq> tc \<longrightarrow> true_gdp_edge buildings sts (Dict ow)
                                  = Inr (Some (oc, tc, spec_value (levels_of ow) b)))"
    if "0 < levels_of ow \<and> record_host buildings sts ow = Inr (Some tc)
        \<and> record_owner buildings sts ow = Inr (Some oc) \<and> oc \<noteq> 0 \<and> tc \<noteq> 0"
    using that assms bv
    by (simp add: effective_edge_def true_gdp_edge_def record_host_def record_owner_def
        truthy_def)
  ultimately show ?thesis by blast
qed

lemma company_edge:
  "effective_edge company_buildings company_states (Dict company_stake)
     = Inr (Some (1, 2, 20800))"
  "true_gdp_edge company_buildings company_states (Dict company_stake)
     = Inr (Some (1, 2, 20800))"
  by (simp_all add: company_buildings_def company_states_def company_stake_def walk_eval)

lemma fallback_edge:
  "effective_edge company_buildings company_states (Dict fallback_stake)
     = Inr (Some (1, 2, 150000))"
  "true_gdp_edge company_buildings company_states (Dict fallback_stake)
     = Inr (Some (1, 2, 150000))"
  by (simp_all add: company_buildings_def company_states_def fallback_stake_def walk_eval)

lemma direct_save_effective_edge:
  "effective_edge (get_database (building_manager direct_save)) (get_database (states direct_save))
     (Dict (stake_of 1)) = Inr (Some (1, 2, 400))"
  by (simp add: example_eval walk_eval)

theorem edge_value_rule_witness:
  "true_gdp_edge (get_database (building_manager direct_save)) (get_database (states direct_save))
     (Dict (stake_of 1)) = Inr (Some (1, 2, 400))
   \<and> effective_edge (get_database (building_manager direct_save))
       (get_database (states direct_save)) (Dict (stake_of 1)) = Inr (Some (1, 2, 400))
   \<and> (400 :: rat) = spec_value (levels_of (stake_of 1)) building_100
   \<and> spec_value (levels_of (stake_of 1)) building_100 = 1000 * (4 / 10)
   \<and> effective_edge company_buildings company_states (Dict company_stake)
       = Inr (Some (1, 2, 20800))
   \<and> true_gdp_edge company_buildings company_states (Dict company_stake)
       = Inr (Some (1, 2, 20800))
   \<and> (20800 :: rat)
       = spec_value (levels_of company_stake)
           \<lparr>b_state = Some 50, b_levels = Some 5, b_cash_reserves = Some 0,
            b_profit_after_reserves = Some 100\<rparr>
   \<and> (20800 :: rat) = 100 * 52 * (2 / 5) * 10
   \<and> effective_edge company_buildings company_states (Dict fallback_stake)
       = Inr (Some (1, 2, 150000))
   \<and> true_gdp_edge company_buildings company_states (Dict fallback_stake)
       = Inr (Some (1, 2, 150000))
   \<and> (150000 :: rat)
       = spec_value (levels_of fallback_stake)
           \<lparr>b_state = Some 50, b_levels = Some 6, b_cash_reserves = Some 0,
            b_profit_after_reserves = Some 0\<rparr>
   \<and> (150000 :: rat) = 3 * 50000
   \<and> 0 < levels_of company_stake
   \<and> record_host company_buildings company_states company_stake = Inr (Some 2)
   \<and> record_owner company_buildings company_states company_stake = Inr (Some 1)"
proof -
  have b300: "table_get company_buildings (o_building company_stake)
      = Some (Dict \<lparr>b_state = Some 50, b_levels = Some 5, b_cash_reserves = Some 0,
                    b_profit_after_reserves = Some 100\<rparr>)"
    by (simp add: company_buildings_def company_stake_def table_get_def)
  have b400: "table_get company_buildings (o_building fallback_stake)
      = Some (Dict \<lparr>b_state = Some 50, b_levels = Some 6, b_cash_reserves = Some 0,
                    b_profit_after_reserves = Some 0\<rparr>)"
    by (simp add: company_buildings_def fallback_stake_def table_get_def)
  have cash: "(400 :: rat) = spec_value (levels_of (stake_of 1)) building_100"
    using edge_value_rule[OF direct_save_building, of _ 1 2 400] direct_save_edge by blast
  have profit: "(20800 :: rat)
       = spec_value (levels_of company_stake)
           \<lparr>b_state = Some 50, b_levels = Some 5, b_cash_reserves = Some 0,
            b_profit_after_reserves = Some 100\<rparr>"
    using edge_value_rule[OF b300, of company_states 1 2 20800] company_edge(1) by blast
  have fallback: "(150000 :: rat)
       = spec_value (levels_of fallback_stake)
           \<lparr>b_state = Some 50, b_levels = Some 6, b_cash_reserves = Some 0,
            b_profit_after_reserves = Some 0\<rparr>"
    using edge_value_rule[OF b400, of company_states 1 2 150000] fallback_edge(1) by blast
  have hyp: "0 < levels_of company_stake"
    "record_host company_buildings company_states company_stake = Inr (Some 2)"
    "record_owner company_buildings company_states company_stake = Inr (Some 1)"
    by (simp_all add: company_buildings_def company_states_def company_stake_def walk_eval)
  have emitted: "effective_edge company_buildings company_states (Dict company_stake)
       = Inr (Some (1, 2, 20800))"
    "true_gdp_edge company_buildings company_states (Dict company_stake)
       = Inr (Some (1, 2, 20800))"
    using edge_value_rule[OF b300, of company_states 1 2 20800] hyp profit by simp_all
  have v1: "spec_value (levels_of (stake_of 1)) building_100 = 1000 * (4 / 10)"
    by (simp add: spec_value_def building_100_def stake_of_def levels_of_def)
  have v2: "(20800 :: rat) = 100 * 52 * (2 / 5) * 10" by simp
  have v3: "(150000 :: rat) = 3 * 50000" by simp
  show ?thesis
    by (intro conjI direct_save_edge direct_save_effective_edge cash v1 emitted profit v2
        fallback_edge fallback v3 hyp)
qed

text \<open>
  C4 (domestic exclusion). A record whose owner country and host country resolve to the
  same country yields no edge in the walk of \<open>true_gdp_ownership.py\<close>, so the loop leaves
  \<open>foreign_investments\<close> as it was; in the walk of \<open>foreign_ownership_report.py\<close> the step
  leaves \<open>foreign_investments\<close> as it was and changes at most \<open>domestic_value\<close>. (The
  walk of \<open>effective_gdp_report.py\<close> has no foreign-investment total: it keeps every
  stake in one ownership matrix, a domestic one under the key pair of the country with
  itself, which its caller reads as domestic ownership.)
\<close>

theorem domestic_record_adds_nothing:
  assumes "record_host buildings sts ow = Inr (Some c)"
    and "record_owner buildings sts ow = Inr (Some c)"
  shows "true_gdp_edge buildings sts (Dict ow) = Inr None
         \<and> true_gdp_loop buildings sts fi [(k, Dict ow)] = Inr fi
         \<and> (\<exists>d'. report_step buildings sts (fi, d) (Dict ow) = Inr (fi, d'))"
proof -
  from assms(1) obtain b where b: "table_get buildings (o_building ow) = Some (Dict b)"
    and sc: "state_country sts (b_state b) = Inr (Some c)"
    by (auto simp: record_host_def split: option.splits entry.splits)
  from assms(2) have oc: "owner_country_of buildings sts (identity_of ow) = Inr (Some c)"
    by (simp add: record_owner_def)
  have edge: "true_gdp_edge buildings sts (Dict ow) = Inr None"
    using b sc oc by (simp add: true_gdp_edge_def building_value_value truthy_def)
  then have loop: "true_gdp_loop buildings sts fi [(k, Dict ow)] = Inr fi" by simp
  obtain val where val: "report_value (levels_of ow) b = Inr val"
    using report_value_no_error[of "levels_of ow" b] by (cases "report_value (levels_of ow) b") auto
  have "\<exists>d'. report_step buildings sts (fi, d) (Dict ow) = Inr (fi, d')"
  proof (cases "truthy (o_building ow)
      \<and> truthy (case o_identity ow of None \<Rightarrow> None | Some i \<Rightarrow> i_country i)
      \<and> levels_of ow > 0 \<and> truthy (b_state b) \<and> c \<noteq> 0")
    case False
    then show ?thesis using b sc val
      by (auto simp: report_step_def Let_def truthy_def split: option.splits)
  next
    case True
    then obtain i where i: "o_identity ow = Some i" "i_country i \<noteq> None"
      by (auto simp: truthy_def split: option.splits)
    with oc have "i_country i = Some c"
      by (simp add: owner_country_of_def identity_of_def)
    with True i b sc val show ?thesis
      by (simp add: report_step_def Let_def truthy_def)
  qed
  with edge loop show ?thesis by simp
qed

theorem domestic_record_adds_nothing_witness:
  "record_host (get_database (building_manager direct_save)) (get_database (states direct_save))
     (stake_of 2) = Inr (Some 2)
   \<and> record_owner (get_database (building_manager direct_save)) (get_database (states direct_save))
       (stake_of 2) = Inr (Some 2)
   \<and> true_gdp_loop (get_database (building_manager direct_save))
       (get_database (states direct_save)) Map.empty [(7, Dict (stake_of 2))] = Inr Map.empty
   \<and> (\<exists>d'. report_step (get_database (building_manager direct_save))
              (get_database (states direct_save)) (Map.empty, Map.empty) (Dict (stake_of 2))
            = Inr (Map.empty, d'))"
proof -
  have h1: "record_host (get_database (building_manager direct_save))
      (get_database (states direct_save)) (stake_of 2) = Inr (Some 2)"
    by (simp add: example_eval walk_eval)
  have h2: "record_owner (get_database (building_manager direct_save))
      (get_database (states direct_save)) (stake_of 2) = Inr (Some 2)"
    by (simp add: example_eval walk_eval)
  from h1 h2 domestic_record_adds_nothing[OF h1 h2, of Map.empty 7 Map.empty]
  show ?thesis by blast
qed

text \<open>
  C6 (ownership ratio), as stated, fails where the building record has no \<open>levels\<close>
  field: the code reads the missing field as 1, so a record of 3 levels has the ratio 3,
  not 0.
\<close>

theorem missing_levels_counterexample:
  "ownership_ratio 3 building_without_levels = Inr 3 \<and> (3 :: rat) \<noteq> 0
   \<and> b_levels building_without_levels = None"
  by (simp add: building_without_levels_def ownership_ratio_def truediv_def)

lemma state_country_error: "state_country sts x \<noteq> Inl ZeroDivisionError"
  by (simp add: state_country_def split: option.splits entry.splits)

lemma owner_country_of_error: "owner_country_of buildings sts ident \<noteq> Inl ZeroDivisionError"
  by (simp add: owner_country_of_def state_country_error split: option.splits entry.splits)

text \<open>
  C6 as amended: no division by zero is ever raised, by the ratio or by a walk; the
  ownership ratio is the record's levels divided by the building's total level count
  when the count is positive, 0 when the count is zero (or negative), and the record's
  levels (a division by the default count 1) when the building has no \<open>levels\<close> field.
\<close>

theorem ownership_ratio_cases:
  "ownership_ratio levels b
     = Inr (case b_levels b of None \<Rightarrow> levels | Some n \<Rightarrow> if 0 < n then levels / n else 0)
   \<and> true_gdp_edge buildings sts e \<noteq> Inl ZeroDivisionError
   \<and> effective_edge buildings sts e \<noteq> Inl ZeroDivisionError"
proof -
  have "true_gdp_edge buildings sts e \<noteq> Inl ZeroDivisionError"
    using state_country_error owner_country_of_error
    by (auto simp: true_gdp_edge_def building_value_value
        split: entry.splits option.splits sum.splits)
  moreover have "effective_edge buildings sts e \<noteq> Inl ZeroDivisionError"
    using state_country_error owner_country_of_error
    by (auto simp: effective_edge_def building_value_value
        split: entry.splits option.splits sum.splits)
  ultimately show ?thesis by (simp add: ownership_ratio_value)
qed

text \<open>
  C10 (identifier 0). The code tests identifiers for truthiness, so 0 reads as a missing
  reference: \<open>truthy\<close> is false on both. A record whose host or owner country resolves to
  0 yields no edge in either walk, and a subject pact whose first or second target is 0
  adds nothing to the direct-subject dict.
\<close>

theorem zero_id_is_unresolved:
  "truthy (Some 0) = truthy None
   \<and> (record_host buildings sts ow = Inr (Some 0) \<or> record_owner buildings sts ow = Inr (Some 0)
        \<longrightarrow> (\<forall>edge. true_gdp_edge buildings sts (Dict ow) \<noteq> Inr (Some edge)
                   \<and> effective_edge buildings sts (Dict ow) \<noteq> Inr (Some edge)))
   \<and> (first tg = Some 0 \<or> second tg = Some 0
        \<longrightarrow> first_pass ds (Dict \<lparr>action = a, targets = Some tg\<rparr>) = ds)"
proof -
  have "true_gdp_edge buildings sts (Dict ow) \<noteq> Inr (Some edge)
        \<and> effective_edge buildings sts (Dict ow) \<noteq> Inr (Some edge)"
    if h: "record_host buildings sts ow = Inr (Some 0) \<or> record_owner buildings sts ow = Inr (Some 0)"
    for edge
  proof -
    obtain oc tc v where edge: "edge = (oc, tc, v)" by (cases edge)
    show ?thesis
      using h true_gdp_edge_SomeD[of buildings sts ow oc tc v]
        effective_edge_SomeD[of buildings sts ow oc tc v]
      unfolding edge by auto
  qed
  moreover have "first_pass ds (Dict \<lparr>action = a, targets = Some tg\<rparr>) = ds"
    if "first tg = Some 0 \<or> second tg = Some 0"
    using that by (auto simp: first_pass_def truthy_def Let_def split: option.splits)
  ultimately show ?thesis by (simp add: truthy_def)
qed

theorem zero_id_is_unresolved_witness:
  "record_host [(100, Dict building_100)] states_of_zero (stake_of 1) = Inr (Some 0)
   \<and> effective_edge [(100, Dict building_100)] states_of_zero (Dict (stake_of 1)) = Inr None
   \<and> true_gdp_edge [(100, Dict building_100)] states_of_zero (Dict (stake_of 1)) \<noteq> Inr (Some (1, 0, 400))
   \<and> first_pass [] (subject_pact ''puppet'' 0 5) = []"
proof -
  have h: "record_host [(100, Dict building_100)] states_of_zero (stake_of 1) = Inr (Some 0)"
    by (simp add: states_of_zero_def example_eval walk_eval)
  have e: "effective_edge [(100, Dict building_100)] states_of_zero (Dict (stake_of 1)) = Inr None"
    by (simp add: states_of_zero_def example_eval walk_eval)
  have t: "first (\<lparr>first = Some 0, second = Some 5\<rparr> :: pact_targets) = Some 0" by simp
  note z = zero_id_is_unresolved[of "[(100, Dict building_100)]" states_of_zero "stake_of 1"
      "\<lparr>first = Some 0, second = Some 5\<rparr>" "[]" "Some ''puppet''"]
  from z h have "true_gdp_edge [(100, Dict building_100)] states_of_zero (Dict (stake_of 1))
      \<noteq> Inr (Some (1, 0, 400))" by blast
  moreover from z t have "first_pass [] (subject_pact ''puppet'' 0 5) = []"
    unfolding subject_pact_def by blast
  ultimately show ?thesis using h e by blast
qed

section \<open>The human-country filter\<close>

lemma humans_lines_spec: "set (humans_lines ls) = spec_filter_set ls"
  by (induction ls) (auto simp: spec_filter_set_def Let_def)

lemma load_humans_list_spec: "set (load_humans_list (Some ls)) = spec_filter_set ls"
  by (simp add: load_humans_list_def humans_lines_spec)

lemmas strip_eval = strip_def is_space_def startswith_hash_def

text \<open>
  C9 (filter file). \<open>load_humans_list\<close> of \<open>gdp_report.py\<close> and its copies return exactly
  the stripped lines that are neither blank nor comments (\<open>load_humans_list_spec\<close>). The
  set comprehension of \<open>foreign_ownership_report.py\<close> and \<open>true_gdp_ownership.py\<close> tests
  for blank lines only: on a file with the lines \<open># players\<close> and \<open>GBR\<close> it keeps the
  comment line as a tag.
\<close>

theorem comment_line_kept_as_tag:
  "report_human_countries True (Some humans_txt) = {''# players'', ''GBR''}
   \<and> (case analyze_foreign_ownership_true_gdp direct_save (Some humans_txt) of
         Inl err \<Rightarrow> {}
       | Inr (fi, gdps, countries, human_countries) \<Rightarrow> human_countries) = {''# players'', ''GBR''}
   \<and> set (load_humans_list (Some humans_txt)) = {''GBR''}
   \<and> spec_filter_set humans_txt = {''GBR''}"
proof -
  have a: "stripped_lines humans_txt = {''# players'', ''GBR''}"
    by (simp add: stripped_lines_def humans_txt_def strip_eval)
  have b: "set (humans_lines humans_txt) = {''GBR''}"
    by (simp add: humans_txt_def strip_eval Let_def)
  have c: "analyze_foreign_ownership_true_gdp direct_save (Some humans_txt)
           = Inr (Map.empty(1 \<mapsto> Map.empty(2 \<mapsto> 400)), Map.empty, [], stripped_lines humans_txt)"
    by (simp add: analyze_foreign_ownership_true_gdp_def calculate_true_gdp_def
        example_eval walk_eval)
  show ?thesis
    using a b by (simp add: c report_human_countries_def load_humans_list_def
        humans_lines_spec[symmetric])
qed

section \<open>Absent sections\<close>

lemma table_get_empty: "table_get [] key = None"
  by (simp add: table_get_def split: option.splits)

lemma state_country_empty: "state_country [] state_id = Inr None"
  by (simp add: state_country_def table_get_empty)

lemma table_get_all_dicts:
  assumes "all_dicts tbl"
  shows "table_get tbl key \<noteq> Some NonDict"
proof
  assume "table_get tbl key = Some NonDict"
  then obtain k where "map_of tbl k = Some NonDict"
    by (auto simp: table_get_def split: option.splits)
  then have "(k, NonDict) \<in> set tbl" by (rule map_of_SomeD)
  then have "NonDict \<in> snd ` set tbl" by force
  with assms show False unfolding all_dicts_def by blast
qed

text \<open>Without building table no record yields an edge or a total.\<close>

lemma edges_without_buildings:
  "true_gdp_edge [] sts e = Inr None" "effective_edge [] sts e = Inr None"
  "report_step [] sts acc e = Inr acc"
  by (simp_all add: true_gdp_edge_def effective_edge_def report_step_def table_get_empty Let_def
      split: entry.splits)

lemma loops_without_buildings:
  "true_gdp_loop [] sts fi os = Inr fi" "effective_loop [] sts fi os = Inr fi"
  "report_loop [] sts acc os = Inr acc"
  by (induction os) (auto simp: edges_without_buildings)

text \<open>Without state table, and with dict entries only in the building table, neither.\<close>

lemma edges_without_states:
  assumes "all_dicts buildings"
  shows "true_gdp_edge buildings [] e = Inr None" "effective_edge buildings [] e = Inr None"
    "report_step buildings [] acc e = Inr acc"
  using table_get_all_dicts[OF assms]
  by (auto simp: true_gdp_edge_def effective_edge_def report_step_def state_country_empty
      truthy_def Let_def split: entry.splits option.splits)

lemma loops_without_states:
  assumes "all_dicts buildings"
  shows "true_gdp_loop buildings [] fi os = Inr fi" "effective_loop buildings [] fi os = Inr fi"
    "report_loop buildings [] acc os = Inr acc"
  by (induction os) (auto simp: edges_without_states[OF assms])

lemma reserves_without_states: "reserves_loop [] acc bs = Inr acc"
  by (induction bs) (auto simp: state_country_empty Let_def split: entry.splits)

text \<open>With dict entries only, no lookup raises.\<close>

lemma state_country_all_dicts:
  assumes "all_dicts sts"
  shows "\<exists>c. state_country sts state_id = Inr c"
  using table_get_all_dicts[OF assms, of state_id]
  by (auto simp: state_country_def split: option.splits entry.splits)

lemma reserves_all_dicts:
  assumes "all_dicts sts"
  shows "\<exists>reserves. reserves_loop sts acc bs = Inr reserves"
proof (induction bs arbitrary: acc)
  case Nil
  show ?case by simp
next
  case (Cons x bs)
  obtain k e where x: "x = (k, e)" by (cases x)
  show ?case
  proof (cases e)
    case NonDict
    with Cons.IH x show ?thesis by simp
  next
    case (Dict b)
    from state_country_all_dicts[OF assms] obtain c
      where "state_country sts (b_state b) = Inr c" by blast
    with Cons.IH x Dict show ?thesis by (auto simp: Let_def split: option.splits)
  qed
qed

lemma true_gdp_all_dicts:
  assumes "all_dicts buildings" and "all_dicts sts"
  shows "\<exists>edge. true_gdp_edge buildings sts e = Inr edge"
proof -
  have sc: "\<exists>c. state_country sts x = Inr c" for x
    by (rule state_country_all_dicts[OF assms(2)])
  have oc: "\<exists>c. owner_country_of buildings sts ident = Inr c" for ident
    using table_get_all_dicts[OF assms(1), of "i_building ident"] sc
    by (auto simp: owner_country_of_def split: option.splits entry.splits)
  show ?thesis
  proof (cases e)
    case NonDict
    then show ?thesis by (simp add: true_gdp_edge_def)
  next
    case (Dict ow)
    show ?thesis
    proof (cases "table_get buildings (o_building ow)")
      case None
      with Dict show ?thesis by (simp add: true_gdp_edge_def)
    next
      case (Some be)
      with table_get_all_dicts[OF assms(1), of "o_building ow"] obtain b
        where b: "table_get buildings (o_building ow) = Some (Dict b)" by (cases be) auto
      from sc obtain c where c: "state_country sts (b_state b) = Inr c" by blast
      from oc obtain c' where c': "owner_country_of buildings sts (identity_of ow) = Inr c'"
        by blast
      from Dict b c c' show ?thesis
        by (simp add: true_gdp_edge_def building_value_value split: option.splits)
    qed
  qed
qed

lemma true_gdp_loop_all_dicts:
  assumes "all_dicts buildings" and "all_dicts sts"
  shows "\<exists>fi'. true_gdp_loop buildings sts fi os = Inr fi'"
proof (induction os arbitrary: fi)
  case Nil
  show ?case by simp
next
  case (Cons x os)
  obtain k e where x: "x = (k, e)" by (cases x)
  from true_gdp_all_dicts[OF assms] obtain edge
    where "true_gdp_edge buildings sts e = Inr edge" by blast
  with Cons.IH x show ?case by (cases edge) auto
qed

lemma gdp_loop_empty: "gdp_loop reserves gdps [] = gdps"
  by simp

lemmas section_eval =
  get_database_def empty_table_def calculate_foreign_ownership_def
  effective_foreign_ownership_def analyze_foreign_ownership_true_gdp_def calculate_true_gdp_def
  get_subject_relationships_def direct_subjects_of_def

text \<open>
  C8 (absent sections), as stated, fails. The document \<open>direct_save\<close> has no country
  table, yet the walk of \<open>true_gdp_ownership.py\<close> returns the edge from country 1 to
  country 2 with value 400: the walk does not read the country table. And the document
  \<open>stateless_save\<close> has no state table, yet both walks raise instead of returning empty
  totals, because its ownership record refers to a building entry that is not a dict.
\<close>

theorem absent_section_counterexample:
  "country_manager direct_save = None
   \<and> (case analyze_foreign_ownership_true_gdp direct_save None of
         Inl err \<Rightarrow> None
       | Inr (fi, gdps, countries, human_countries) \<Rightarrow>
           (case fi 1 of None \<Rightarrow> None | Some inner \<Rightarrow> inner 2)) = Some 400
   \<and> states stateless_save = None
   \<and> calculate_foreign_ownership stateless_save = Inl AttributeError
   \<and> analyze_foreign_ownership_true_gdp stateless_save None = Inl AttributeError"
  by (simp add: section_eval example_eval stateless_save_def walk_eval)

text \<open>
  C8 as amended. An absent section is read as the empty table and reading it never
  raises: each computation returns on a document without a section what it returns on
  the document with that section present and its table empty. The aggregates computed
  from the absent table are empty. Without pacts table the subject map is empty.
  Without building-ownership table or building table the walks return empty totals; the
  walk of \<open>true_gdp_ownership.py\<close>, which first computes the GDP from the building and
  state tables, does so without building-ownership table when every entry of the state
  table is a dict. Without state table the walks return empty totals when every entry
  of the building table is a dict. Without country table the GDP totals are empty, and
  the walk of \<open>true_gdp_ownership.py\<close> returns them when every entry of the building and
  state tables is a dict, while its ownership totals, which do not depend on the country
  table, are what the other tables give.
\<close>

theorem absent_section_reads_as_empty:
  "get_subject_relationships frames (sd\<lparr>pacts := None\<rparr>) = Inr []
   \<and> get_subject_relationships frames (sd\<lparr>pacts := None\<rparr>)
       = get_subject_relationships frames (sd\<lparr>pacts := empty_table\<rparr>)
   \<and> calculate_foreign_ownership (sd\<lparr>building_ownership_manager := None\<rparr>) = Inr (Map.empty, Map.empty)
   \<and> calculate_foreign_ownership (sd\<lparr>building_manager := None\<rparr>) = Inr (Map.empty, Map.empty)
   \<and> (all_dicts (get_database (building_manager sd))
        \<longrightarrow> calculate_foreign_ownership (sd\<lparr>states := None\<rparr>) = Inr (Map.empty, Map.empty))
   \<and> calculate_foreign_ownership (sd\<lparr>building_ownership_manager := None\<rparr>)
       = calculate_foreign_ownership (sd\<lparr>building_ownership_manager := empty_table\<rparr>)
   \<and> calculate_foreign_ownership (sd\<lparr>building_manager := None\<rparr>)
       = calculate_foreign_ownership (sd\<lparr>building_manager := empty_table\<rparr>)
   \<and> calculate_foreign_ownership (sd\<lparr>states := None\<rparr>)
       = calculate_foreign_ownership (sd\<lparr>states := empty_table\<rparr>)
   \<and> effective_foreign_ownership (sd\<lparr>building_ownership_manager := None\<rparr>) = Inr Map.empty
   \<and> effective_foreign_ownership (sd\<lparr>building_manager := None\<rparr>) = Inr Map.empty
   \<and> (all_dicts (get_database (building_manager sd))
        \<longrightarrow> effective_foreign_ownership (sd\<lparr>states := None\<rparr>) = Inr Map.empty)
   \<and> (\<forall>fi gdps countries hs.
         analyze_foreign_ownership_true_gdp (sd\<lparr>building_ownership_manager := None\<rparr>) humans_file
           = Inr (fi, gdps, countries, hs) \<longrightarrow> fi = Map.empty)
   \<and> (all_dicts (get_database (states sd))
        \<longrightarrow> (\<exists>gdps countries hs.
              analyze_foreign_ownership_true_gdp (sd\<lparr>building_ownership_manager := None\<rparr>)
                humans_file = Inr (Map.empty, gdps, countries, hs)))
   \<and> (\<exists>gdps countries hs.
         analyze_foreign_ownership_true_gdp (sd\<lparr>building_manager := None\<rparr>) humans_file
           = Inr (Map.empty, gdps, countries, hs))
   \<and> (all_dicts (get_database (building_manager sd))
        \<longrightarrow> (\<exists>gdps countries hs.
              analyze_foreign_ownership_true_gdp (sd\<lparr>states := None\<rparr>) humans_file
                = Inr (Map.empty, gdps, countries, hs)))
   \<and> (\<forall>fi gdps countries hs.
         analyze_foreign_ownership_true_gdp (sd\<lparr>country_manager := None\<rparr>) humans_file
           = Inr (fi, gdps, countries, hs) \<longrightarrow> gdps = Map.empty \<and> countries = [])
   \<and> (all_dicts (get_database (building_manager sd)) \<and> all_dicts (get_database (states sd))
        \<longrightarrow> (\<exists>fi hs.
              analyze_foreign_ownership_true_gdp (sd\<lparr>country_manager := None\<rparr>) humans_file
                = Inr (fi, Map.empty, [], hs)))
   \<and> analyze_foreign_ownership_true_gdp (sd\<lparr>building_ownership_manager := None\<rparr>) humans_file
       = analyze_foreign_ownership_true_gdp (sd\<lparr>building_ownership_manager := empty_table\<rparr>) humans_file
   \<and> analyze_foreign_ownership_true_gdp (sd\<lparr>building_manager := None\<rparr>) humans_file
       = analyze_foreign_ownership_true_gdp (sd\<lparr>building_manager := empty_table\<rparr>) humans_file
   \<and> analyze_foreign_ownership_true_gdp (sd\<lparr>states := None\<rparr>) humans_file
       = analyze_foreign_ownership_true_gdp (sd\<lparr>states := empty_table\<rparr>) humans_file
   \<and> analyze_foreign_ownership_true_gdp (sd\<lparr>country_manager := None\<rparr>) humans_file
       = analyze_foreign_ownership_true_gdp (sd\<lparr>country_manager := empty_table\<rparr>) humans_file"
proof -
  have pacts: "get_subject_relationships frames (sd\<lparr>pacts := None\<rparr>) = Inr []"
    "get_subject_relationships frames (sd\<lparr>pacts := None\<rparr>)
       = get_subject_relationships frames (sd\<lparr>pacts := empty_table\<rparr>)"
    by (simp_all add: section_eval)
  have report: "calculate_foreign_ownership (sd\<lparr>building_ownership_manager := None\<rparr>)
        = Inr (Map.empty, Map.empty)"
    "calculate_foreign_ownership (sd\<lparr>building_manager := None\<rparr>) = Inr (Map.empty, Map.empty)"
    "all_dicts (get_database (building_manager sd))
       \<longrightarrow> calculate_foreign_ownership (sd\<lparr>states := None\<rparr>) = Inr (Map.empty, Map.empty)"
    by (simp_all add: calculate_foreign_ownership_def loops_without_buildings loops_without_states
        get_database_def)
  have report_eq: "calculate_foreign_ownership (sd\<lparr>building_ownership_manager := None\<rparr>)
       = calculate_foreign_ownership (sd\<lparr>building_ownership_manager := empty_table\<rparr>)"
    "calculate_foreign_ownership (sd\<lparr>building_manager := None\<rparr>)
       = calculate_foreign_ownership (sd\<lparr>building_manager := empty_table\<rparr>)"
    "calculate_foreign_ownership (sd\<lparr>states := None\<rparr>)
       = calculate_foreign_ownership (sd\<lparr>states := empty_table\<rparr>)"
    by (simp_all add: calculate_foreign_ownership_def get_database_def empty_table_def)
  have effective: "effective_foreign_ownership (sd\<lparr>building_ownership_manager := None\<rparr>) = Inr Map.empty"
    "effective_foreign_ownership (sd\<lparr>building_manager := None\<rparr>) = Inr Map.empty"
    "all_dicts (get_database (building_manager sd))
       \<longrightarrow> effective_foreign_ownership (sd\<lparr>states := None\<rparr>) = Inr Map.empty"
    by (simp_all add: effective_foreign_ownership_def loops_without_buildings loops_without_states
        get_database_def)
  have t1: "\<forall>fi gdps countries hs.
         analyze_foreign_ownership_true_gdp (sd\<lparr>building_ownership_manager := None\<rparr>) humans_file
           = Inr (fi, gdps, countries, hs) \<longrightarrow> fi = Map.empty"
    by (auto simp: analyze_foreign_ownership_true_gdp_def get_database_def Let_def
        split: sum.splits)
  have t1': "all_dicts (get_database (states sd))
        \<longrightarrow> (\<exists>gdps countries hs.
              analyze_foreign_ownership_true_gdp (sd\<lparr>building_ownership_manager := None\<rparr>)
                humans_file = Inr (Map.empty, gdps, countries, hs))"
  proof
    assume "all_dicts (get_database (states sd))"
    from reserves_all_dicts[OF this, of Map.empty "get_database (building_manager sd)"]
    obtain reserves where "reserves_loop (get_database (states sd)) Map.empty
        (get_database (building_manager sd)) = Inr reserves" by blast
    then show "\<exists>gdps countries hs.
              analyze_foreign_ownership_true_gdp (sd\<lparr>building_ownership_manager := None\<rparr>)
                humans_file = Inr (Map.empty, gdps, countries, hs)"
      by (simp add: analyze_foreign_ownership_true_gdp_def calculate_true_gdp_def
          get_database_def)
  qed
  have t2: "\<exists>gdps countries hs.
         analyze_foreign_ownership_true_gdp (sd\<lparr>building_manager := None\<rparr>) humans_file
           = Inr (Map.empty, gdps, countries, hs)"
    by (simp add: analyze_foreign_ownership_true_gdp_def calculate_true_gdp_def
        loops_without_buildings get_database_def)
  have t3: "all_dicts (get_database (building_manager sd))
        \<longrightarrow> (\<exists>gdps countries hs.
              analyze_foreign_ownership_true_gdp (sd\<lparr>states := None\<rparr>) humans_file
                = Inr (Map.empty, gdps, countries, hs))"
    by (simp add: analyze_foreign_ownership_true_gdp_def calculate_true_gdp_def
        loops_without_states reserves_without_states get_database_def)
  have t4: "\<forall>fi gdps countries hs.
         analyze_foreign_ownership_true_gdp (sd\<lparr>country_manager := None\<rparr>) humans_file
           = Inr (fi, gdps, countries, hs) \<longrightarrow> gdps = Map.empty \<and> countries = []"
    by (auto simp: analyze_foreign_ownership_true_gdp_def calculate_true_gdp_def
        get_database_def Let_def split: sum.splits)
  have t4': "all_dicts (get_database (building_manager sd)) \<and> all_dicts (get_database (states sd))
        \<longrightarrow> (\<exists>fi hs.
              analyze_foreign_ownership_true_gdp (sd\<lparr>country_manager := None\<rparr>) humans_file
                = Inr (fi, Map.empty, [], hs))"
  proof
    assume h: "all_dicts (get_database (building_manager sd)) \<and> all_dicts (get_database (states sd))"
    from reserves_all_dicts[of "get_database (states sd)" Map.empty
        "get_database (building_manager sd)"] h
    obtain reserves where r: "reserves_loop (get_database (states sd)) Map.empty
        (get_database (building_manager sd)) = Inr reserves" by blast
    from true_gdp_loop_all_dicts[of "get_database (building_manager sd)"
        "get_database (states sd)" Map.empty "get_database (building_ownership_manager sd)"] h
    obtain fi where "true_gdp_loop (get_database (building_manager sd))
        (get_database (states sd)) Map.empty (get_database (building_ownership_manager sd))
        = Inr fi" by blast
    with r show "\<exists>fi hs.
              analyze_foreign_ownership_true_gdp (sd\<lparr>country_manager := None\<rparr>) humans_file
                = Inr (fi, Map.empty, [], hs)"
      by (simp add: analyze_foreign_ownership_true_gdp_def calculate_true_gdp_def
          get_database_def)
  qed
  have t_eq: "analyze_foreign_ownership_true_gdp (sd\<lparr>building_ownership_manager := None\<rparr>) humans_file
       = analyze_foreign_ownership_true_gdp (sd\<lparr>building_ownership_manager := empty_table\<rparr>) humans_file"
    "analyze_foreign_ownership_true_gdp (sd\<lparr>building_manager := None\<rparr>) humans_file
       = analyze_foreign_ownership_true_gdp (sd\<lparr>building_manager := empty_table\<rparr>) humans_file"
    "analyze_foreign_ownership_true_gdp (sd\<lparr>states := None\<rparr>) humans_file
       = analyze_foreign_ownership_true_gdp (sd\<lparr>states := empty_table\<rparr>) humans_file"
    "analyze_foreign_ownership_true_gdp (sd\<lparr>country_manager := None\<rparr>) humans_file
       = analyze_foreign_ownership_true_gdp (sd\<lparr>country_manager := empty_table\<rparr>) humans_file"
    by (simp_all add: analyze_foreign_ownership_true_gdp_def calculate_true_gdp_def
        get_database_def empty_table_def)
  show ?thesis
    by (intro conjI pacts report report_eq effective t1 t1' t2 t3 t4 t4' t_eq)
qed

theorem absent_section_reads_as_empty_witness:
  "all_dicts (get_database (building_manager direct_save))
   \<and> all_dicts (get_database (states direct_save))
   \<and> calculate_foreign_ownership (direct_save\<lparr>states := None\<rparr>) = Inr (Map.empty, Map.empty)
   \<and> effective_foreign_ownership (direct_save\<lparr>states := None\<rparr>) = Inr Map.empty
   \<and> analyze_foreign_ownership_true_gdp (direct_save\<lparr>building_ownership_manager := None\<rparr>) None
       = Inr (Map.empty, Map.empty, [], {})
   \<and> analyze_foreign_ownership_true_gdp (direct_save\<lparr>country_manager := None\<rparr>) None
       = Inr (Map.empty(1 \<mapsto> Map.empty(2 \<mapsto> 400)), Map.empty, [], {})
   \<and> (\<exists>gdps countries hs.
         analyze_foreign_ownership_true_gdp (direct_save\<lparr>states := None\<rparr>) None
           = Inr (Map.empty, gdps, countries, hs))"
proof -
  have h: "all_dicts (get_database (building_manager direct_save))"
    by (simp add: all_dicts_def direct_save_def get_database_def)
  have h': "all_dicts (get_database (states direct_save))"
    by (simp add: all_dicts_def direct_save_def get_database_def)
  have a: "analyze_foreign_ownership_true_gdp (direct_save\<lparr>building_ownership_manager := None\<rparr>) None
       = Inr (Map.empty, Map.empty, [], {})"
    by (simp add: section_eval example_eval walk_eval)
  have b: "analyze_foreign_ownership_true_gdp (direct_save\<lparr>country_manager := None\<rparr>) None
       = Inr (Map.empty(1 \<mapsto> Map.empty(2 \<mapsto> 400)), Map.empty, [], {})"
    by (simp add: section_eval example_eval walk_eval)
  note t = absent_section_reads_as_empty[of 1000 direct_save None]
  from t h
  have "calculate_foreign_ownership (direct_save\<lparr>states := None\<rparr>) = Inr (Map.empty, Map.empty)"
    and "effective_foreign_ownership (direct_save\<lparr>states := None\<rparr>) = Inr Map.empty"
    and "\<exists>gdps countries hs.
         analyze_foreign_ownership_true_gdp (direct_save\<lparr>states := None\<rparr>) None
           = Inr (Map.empty, gdps, countries, hs)"
    by blast+
  with h h' a b show ?thesis by blast
qed

end
